theory Spec2Isabelle
  imports Complex_Main "HOL-Library.Sublist"
begin

section \<open>Data model (App.tsx, type definitions)\<close>

text \<open>
  The TypeScript \<open>number\<close> fields are filled from \<open>parseInt(...) || d\<close> in the form
  handlers, so they are modelled as unbounded integers. Time stamps
  (\<open>performance.now()\<close> and the argument of an animation-frame callback) are
  modelled as reals. The records \<open>SourceView\<close> and \<open>Frame\<close> share field names in the
  source; here the fields carry a prefix, since record fields are global constants.
\<close>

datatype ParseMode = Grid | Sourceview

record Vec =
  vx :: int
  vy :: int

record GridConfig =
  spriteWidth :: int
  spriteHeight :: int
  rows :: int
  columns :: int
  originOffset :: Vec
  margin :: Vec

record SourceView =
  sv_x :: int
  sv_y :: int
  sv_width :: int
  sv_height :: int

record Frame =
  index :: int
  f_x :: int
  f_y :: int
  f_width :: int
  f_height :: int

record AnimationFrame =
  frameIndex :: int
  duration :: int

datatype LoopStrategy = Freeze | End | Loop | PingPong

record Animation =
  name :: string
  frames :: "AnimationFrame list"
  loopStrategy :: LoopStrategy

text \<open>
  The loaded \<open>HTMLImageElement\<close>; only its presence is ever inspected by the
  functions modelled below. The state cell \<open>image\<close> is the field \<open>image_el\<close> of the
  record \<open>App\<close>, since \<open>image\<close> is the image of a set under a function in HOL.
\<close>

record Image =
  img_width :: int
  img_height :: int

text \<open>
  The \<open>useState\<close> cells of the component \<open>App\<close> that the modelled functions read or write.
  The cell \<open>frames\<close> is the field \<open>appFrames\<close>, since \<open>frames\<close> is already the field of an
  animation.
\<close>

record App =
  image_el :: "Image option"
  parseMode :: "ParseMode option"
  gridConfig :: GridConfig
  sourceViews :: "SourceView list"
  appFrames :: "Frame list"
  animations :: "Animation list"
  selectedAnimation :: "nat option"
  animationGroupName :: string
  isPlaying :: bool
  currentFrameIdx :: int
  imagePath :: string
  defaultDuration :: int

section \<open>Frame resolver\<close>

subsection \<open>\<open>parseGridFrames\<close>\<close>

text \<open>The object literal pushed in the body of the inner loop.\<close>

definition gridFrame :: "GridConfig \<Rightarrow> int \<Rightarrow> int \<Rightarrow> int \<Rightarrow> Frame" where
  "gridFrame g row col i =
     \<lparr> index = i,
       f_x = vx (originOffset g) + col * (spriteWidth g + vx (margin g)),
       f_y = vy (originOffset g) + row * (spriteHeight g + vy (margin g)),
       f_width = spriteWidth g,
       f_height = spriteHeight g \<rparr>"

text \<open>
  The inner loop \<open>for (let col = 0; col < gridConfig.columns; col++)\<close>: it threads the
  running \<open>index\<close> and the array \<open>newFrames\<close>.
\<close>

function colLoop :: "GridConfig \<Rightarrow> int \<Rightarrow> int \<Rightarrow> int \<Rightarrow> Frame list \<Rightarrow> int \<times> Frame list" where
  "colLoop g row col i newFrames =
     (if col < columns g
      then colLoop g row (col + 1) (i + 1) (newFrames @ [gridFrame g row col i])
      else (i, newFrames))"
  by pat_completeness auto
termination
  by (relation "measure (\<lambda>(g, row, col, i, newFrames). nat (columns g - col))") auto

text \<open>The outer loop \<open>for (let row = 0; row < gridConfig.rows; row++)\<close>.\<close>

function rowLoop :: "GridConfig \<Rightarrow> int \<Rightarrow> int \<Rightarrow> Frame list \<Rightarrow> Frame list" where
  "rowLoop g row i newFrames =
     (if row < rows g
      then (case colLoop g row 0 i newFrames of (i', newFrames') \<Rightarrow> rowLoop g (row + 1) i' newFrames')
      else newFrames)"
  by pat_completeness auto
termination
  by (relation "measure (\<lambda>(g, row, i, newFrames). nat (rows g - row))") auto

text \<open>
  \<open>parseGridFrames\<close>: without an image the function returns before \<open>setFrames\<close>, so the
  stored frames stay as they are; otherwise the frames are replaced wholesale.
\<close>

definition parseGridFrames :: "App \<Rightarrow> App" where
  "parseGridFrames s =
     (if image_el s = None then s
      else s\<lparr>appFrames := rowLoop (gridConfig s) 0 0 []\<rparr>)"

subsection \<open>\<open>parseSourceViewFrames\<close>\<close>

text \<open>\<open>sourceViews.map((sv, index) => ...)\<close>: the callback receives the position as second argument.\<close>

fun mapIndexed :: "('a \<Rightarrow> int \<Rightarrow> 'b) \<Rightarrow> int \<Rightarrow> 'a list \<Rightarrow> 'b list" where
  "mapIndexed f i [] = []"
| "mapIndexed f i (a # as) = f a i # mapIndexed f (i + 1) as"

definition sourceViewFrame :: "SourceView \<Rightarrow> int \<Rightarrow> Frame" where
  "sourceViewFrame sv i =
     \<lparr> index = i, f_x = sv_x sv, f_y = sv_y sv, f_width = sv_width sv, f_height = sv_height sv \<rparr>"

definition parseSourceViewFrames :: "App \<Rightarrow> App" where
  "parseSourceViewFrames s = s\<lparr>appFrames := mapIndexed sourceViewFrame 0 (sourceViews s)\<rparr>"

text \<open>The initial values passed to \<open>useState\<close>.\<close>

definition initialApp :: App where
  "initialApp =
     \<lparr> image_el = None,
       parseMode = None,
       gridConfig = \<lparr> spriteWidth = 32, spriteHeight = 32, rows = 1, columns = 1,
                      originOffset = \<lparr> vx = 0, vy = 0 \<rparr>, margin = \<lparr> vx = 0, vy = 0 \<rparr> \<rparr>,
       sourceViews = [],
       appFrames = [],
       animations = [],
       selectedAnimation = None,
       animationGroupName = ''PlayerAnimations'',
       isPlaying = False,
       currentFrameIdx = 0,
       imagePath = ''path/to/spritesheet.png'',
       defaultDuration = 150 \<rparr>"

section \<open>Animation model\<close>

text \<open>
  An access to a property of \<open>undefined\<close> throws a \<open>TypeError\<close> in JavaScript; it is the
  only failure the modelled functions can raise.
\<close>

datatype error = TypeError

text \<open>
  \<open>addFrameToAnimation\<close> followed by the \<open>updateAnimation\<close> it calls: the new frame takes
  \<open>defaultDuration\<close> as it is stored. For an index without an animation,
  \<open>anim.frames\<close> is a property access on \<open>undefined\<close>.
\<close>

definition addFrameToAnimation :: "nat \<Rightarrow> int \<Rightarrow> App \<Rightarrow> error + App" where
  "addFrameToAnimation animIndex fi s =
     (if animIndex < length (animations s)
      then
        (let anim = animations s ! animIndex;
             newFrame = \<lparr> frameIndex = fi, duration = defaultDuration s \<rparr>
         in Inr (s\<lparr>animations := (animations s)[animIndex := anim\<lparr>frames := frames anim @ [newFrame]\<rparr>]\<rparr>))
      else Inl TypeError)"

section \<open>Playback\<close>

text \<open>
  The preview effect keeps three local variables (\<open>frameIdx\<close>, \<open>lastTime\<close>,
  \<open>direction\<close>) in the closure of \<open>animate\<close>, next to the state cells \<open>isPlaying\<close>
  and \<open>currentFrameIdx\<close> of the component. \<open>requested\<close> records whether a call of
  \<open>requestAnimationFrame(animate)\<close> is outstanding, that is, whether the browser
  will invoke \<open>animate\<close> again.
\<close>

record Player = App +
  frameIdx :: int
  lastTime :: real
  direction :: int
  requested :: bool

text \<open>
  \<open>animate(currentTime)\<close> for the animation \<open>anim\<close> captured by the closure. Reading
  \<open>anim.frames[frameIdx]\<close> outside the array gives \<open>undefined\<close>, and the following
  \<open>currentAnimFrame.duration\<close> throws. In the \<open>End\<close> branch the function returns
  after \<open>setIsPlaying(false)\<close>, before \<open>setCurrentFrameIdx\<close> and before the next
  request.
\<close>

definition animate :: "Animation \<Rightarrow> real \<Rightarrow> Player \<Rightarrow> error + Player" where
  "animate anim currentTime p =
     (let elapsed = currentTime - lastTime p;
          len = int (length (frames anim))
      in
      if frameIdx p < 0 \<or> len \<le> frameIdx p then Inl TypeError
      else
        let currentAnimFrame = frames anim ! nat (frameIdx p) in
        if real_of_int (duration currentAnimFrame) \<le> elapsed then
          (let p1 = p\<lparr>lastTime := currentTime\<rparr> in
           if loopStrategy anim = PingPong then
             (let p2 = p1\<lparr>frameIdx := frameIdx p1 + direction p1\<rparr>;
                  p3 = (if len \<le> frameIdx p2 then p2\<lparr>frameIdx := len - 2, direction := - 1\<rparr>
                        else if frameIdx p2 < 0 then p2\<lparr>frameIdx := 1, direction := 1\<rparr>
                        else p2)
              in Inr (p3\<lparr>currentFrameIdx := frameIdx p3, requested := True\<rparr>))
           else if loopStrategy anim = Loop then
             (let p2 = p1\<lparr>frameIdx := (frameIdx p1 + 1) mod len\<rparr>
              in Inr (p2\<lparr>currentFrameIdx := frameIdx p2, requested := True\<rparr>))
           else
             (let p2 = p1\<lparr>frameIdx := frameIdx p1 + 1\<rparr> in
              if len \<le> frameIdx p2 then
                (if loopStrategy anim = Freeze then
                   (let p3 = p2\<lparr>frameIdx := len - 1\<rparr>
                    in Inr (p3\<lparr>currentFrameIdx := frameIdx p3, requested := True\<rparr>))
                 else Inr (p2\<lparr>isPlaying := False, requested := False\<rparr>))
              else Inr (p2\<lparr>currentFrameIdx := frameIdx p2, requested := True\<rparr>)))
        else Inr (p\<lparr>requested := True\<rparr>))"

text \<open>
  The body of the preview effect, run at time \<open>now\<close> (the value of
  \<open>performance.now()\<close>) after the cleanup of its previous run has cancelled the
  outstanding request: it starts a fresh closure from \<open>currentFrameIdx\<close> with
  \<open>direction = 1\<close>, or requests nothing when playback is off or there is nothing to
  play.
\<close>

definition previewEffect :: "real \<Rightarrow> Player \<Rightarrow> Player" where
  "previewEffect now p =
     (if \<not> isPlaying p then p\<lparr>requested := False\<rparr>
      else case selectedAnimation p of
        None \<Rightarrow> p\<lparr>requested := False\<rparr>
      | Some i \<Rightarrow>
          if length (animations p) \<le> i \<or> frames (animations p ! i) = [] then p\<lparr>requested := False\<rparr>
          else p\<lparr>frameIdx := currentFrameIdx p, lastTime := now, direction := 1, requested := True\<rparr>)"

text \<open>
  The only state write of the effect that draws the preview: when
  \<open>anim.frames[currentFrameIdx]\<close> is \<open>undefined\<close> it calls \<open>setCurrentFrameIdx(0)\<close>.
  The preview canvas is mounted exactly when an animation is selected.
\<close>

definition drawPreview :: "Player \<Rightarrow> Player" where
  "drawPreview p =
     (if image_el p = None then p
      else case selectedAnimation p of
        None \<Rightarrow> p
      | Some i \<Rightarrow>
          if length (animations p) \<le> i \<or> frames (animations p ! i) = [] then p
          else if currentFrameIdx p < 0 \<or> int (length (frames (animations p ! i))) \<le> currentFrameIdx p
          then p\<lparr>currentFrameIdx := 0\<rparr>
          else p)"

text \<open>
  The effects that run after \<open>animate\<close> changed \<open>currentFrameIdx\<close>, a dependency of the
  preview effect and of the draw effect: the preview effect restarts, the draw effect
  runs, and if that one reset \<open>currentFrameIdx\<close> the preview effect restarts once more.
  All of it happens at the time \<open>now\<close>.
\<close>

definition rerender :: "real \<Rightarrow> Player \<Rightarrow> Player" where
  "rerender now p =
     (let q = drawPreview (previewEffect now p)
      in if currentFrameIdx q \<noteq> currentFrameIdx p then previewEffect now q else q)"

text \<open>
  One animation-frame callback at time \<open>currentTime\<close>, delivered only while a request
  is outstanding, followed by the effects whose dependencies \<open>animate\<close> changed: both
  effects when it changed \<open>currentFrameIdx\<close>, the preview effect alone when it changed
  only \<open>isPlaying\<close>. The selection and the animations do not change during a callback.
\<close>

definition tick :: "real \<times> real \<Rightarrow> Player \<Rightarrow> error + Player" where
  "tick tn p =
     (case tn of (currentTime, now) \<Rightarrow>
        if \<not> requested p then Inr p
        else
          (case selectedAnimation p of
             None \<Rightarrow> Inr p
           | Some i \<Rightarrow>
               if length (animations p) \<le> i then Inr p
               else
                 (case animate (animations p ! i) currentTime p of
                    Inl e \<Rightarrow> Inl e
                  | Inr p' \<Rightarrow>
                      if currentFrameIdx p' \<noteq> currentFrameIdx p then Inr (rerender now p')
                      else if isPlaying p' \<noteq> isPlaying p then Inr (previewEffect now p')
                      else Inr p')))"

text \<open>A sequence of callbacks, and the value of \<open>currentFrameIdx\<close> seen after each of them.\<close>

fun ticks :: "(real \<times> real) list \<Rightarrow> Player \<Rightarrow> error + Player" where
  "ticks [] p = Inr p"
| "ticks (tn # tns) p = (case tick tn p of Inl e \<Rightarrow> Inl e | Inr p' \<Rightarrow> ticks tns p')"

fun visited :: "(real \<times> real) list \<Rightarrow> Player \<Rightarrow> int list" where
  "visited [] p = []"
| "visited (tn # tns) p =
     (case tick tn p of Inl e \<Rightarrow> [] | Inr p' \<Rightarrow> currentFrameIdx p' # visited tns p')"

text \<open>
  Pressing Play at time \<open>now\<close>: \<open>setIsPlaying(true)\<close>, then the first run of the preview
  effect. Before that run there is no closure and no request.
\<close>

definition play :: "real \<Rightarrow> App \<Rightarrow> Player" where
  "play now s =
     previewEffect now
       \<lparr> image_el = image_el s, parseMode = parseMode s, gridConfig = gridConfig s,
         sourceViews = sourceViews s, appFrames = appFrames s, animations = animations s,
         selectedAnimation = selectedAnimation s, animationGroupName = animationGroupName s,
         isPlaying = True, currentFrameIdx = currentFrameIdx s, imagePath = imagePath s,
         defaultDuration = defaultDuration s,
         frameIdx = currentFrameIdx s, lastTime = now, direction = 1, requested = False \<rparr>"

section \<open>Code generation\<close>

text \<open>
  A template literal \<open>${n}\<close> prints an integer in decimal, with a leading minus sign
  for a negative one (JavaScript changes to exponent notation from \<open>10^21\<close> on, which
  no pixel count or duration reaches).
\<close>

definition digit :: "nat \<Rightarrow> char" where
  "digit d = ''0123456789'' ! d"

function showNat :: "nat \<Rightarrow> string" where
  "showNat n = (if n < 10 then [digit n] else showNat (n div 10) @ [digit (n mod 10)])"
  by pat_completeness auto
termination
  by (relation "measure (\<lambda>n. n)") auto

definition showInt :: "int \<Rightarrow> string" where
  "showInt n = (if n < 0 then CHR ''-'' # showNat (nat (- n)) else showNat (nat n))"

text \<open>The lines up to the choice of the parse mode.\<close>

definition codePreamble :: "string \<Rightarrow> string" where
  "codePreamble path =
     ''import { ImageSource, SpriteSheet, Animation, AnimationStrategy } from 'excalibur';\<newline>\<newline>''
     @ ''// Load the spritesheet image\<newline>''
     @ ''// !!!! THIS IS /public FOLDER IF USING VITE !!!!\<newline>''
     @ ''const imageSource = new ImageSource('' @ [CHR 0x27] @ path @ [CHR 0x27] @ '');\<newline>\<newline>''
     @ ''// Wait for the image to load\<newline>''
     @ ''await imageSource.load();\<newline>\<newline>''"

text \<open>The branch \<open>parseMode === "grid"\<close>, with \<open>hasSpacing\<close> as the source computes it.\<close>

definition hasSpacing :: "GridConfig \<Rightarrow> bool" where
  "hasSpacing g \<longleftrightarrow>
     vx (originOffset g) \<noteq> 0 \<or> vy (originOffset g) \<noteq> 0 \<or> vx (margin g) \<noteq> 0 \<or> vy (margin g) \<noteq> 0"

definition gridCode :: "GridConfig \<Rightarrow> string" where
  "gridCode g =
     (let code =
        ''// Create spritesheet using grid-based parsing\<newline>''
        @ ''const spriteSheet = SpriteSheet.fromImageSource({\<newline>''
        @ ''  image: imageSource,\<newline>''
        @ ''  grid: {\<newline>''
        @ ''    rows: '' @ showInt (rows g) @ '',\<newline>''
        @ ''    columns: '' @ showInt (columns g) @ '',\<newline>''
        @ ''    spriteWidth: '' @ showInt (spriteWidth g) @ '',\<newline>''
        @ ''    spriteHeight: '' @ showInt (spriteHeight g) @ ''\<newline>''
        @ ''  }'';
          code =
            (if hasSpacing g then
               code
               @ '',\<newline>  spacing: {\<newline>''
               @ ''    originOffset: { x: '' @ showInt (vx (originOffset g))
                 @ '', y: '' @ showInt (vy (originOffset g)) @ '' },\<newline>''
               @ ''    margin: { x: '' @ showInt (vx (margin g))
                 @ '', y: '' @ showInt (vy (margin g)) @ '' }\<newline>''
               @ ''  }''
             else code)
      in code @ ''\<newline>});\<newline>\<newline>'')"

text \<open>
  The branch \<open>parseMode === "sourceview"\<close>; \<open>n\<close> is \<open>sourceViews.length\<close> and \<open>i\<close> the
  position handed to the \<open>forEach\<close> callback.
\<close>

fun sourceViewLines :: "int \<Rightarrow> int \<Rightarrow> SourceView list \<Rightarrow> string" where
  "sourceViewLines n i [] = []"
| "sourceViewLines n i (sv # svs) =
     ''    { x: '' @ showInt (sv_x sv) @ '', y: '' @ showInt (sv_y sv)
     @ '', width: '' @ showInt (sv_width sv) @ '', height: '' @ showInt (sv_height sv) @ '' }''
     @ (if i < n - 1 then '',\<newline>'' else ''\<newline>'')
     @ sourceViewLines n (i + 1) svs"

definition sourceViewCode :: "SourceView list \<Rightarrow> string" where
  "sourceViewCode svs =
     ''// Create spritesheet using source views (irregular frames)\<newline>''
     @ ''const spriteSheet = SpriteSheet.fromImageSourceWithSourceViews({\<newline>''
     @ ''  image: imageSource,\<newline>''
     @ ''  sourceViews: [\<newline>''
     @ sourceViewLines (int (length svs)) 0 svs
     @ ''  ]\<newline>''
     @ ''});\<newline>\<newline>''"

text \<open>The animation entries; \<open>strategyMap\<close> maps every strategy to its own name.\<close>

fun strategyMap :: "LoopStrategy \<Rightarrow> string" where
  "strategyMap Loop = ''Loop''"
| "strategyMap Freeze = ''Freeze''"
| "strategyMap End = ''End''"
| "strategyMap PingPong = ''PingPong''"

fun animFrameLines :: "int \<Rightarrow> int \<Rightarrow> AnimationFrame list \<Rightarrow> string" where
  "animFrameLines n fIdx [] = []"
| "animFrameLines n fIdx (f # fs) =
     ''      { graphic: spriteSheet.sprites['' @ showInt (frameIndex f)
     @ ''], duration: '' @ showInt (duration f) @ '' }''
     @ (if fIdx < n - 1 then '',\<newline>'' else ''\<newline>'')
     @ animFrameLines n (fIdx + 1) fs"

fun animationEntries :: "int \<Rightarrow> int \<Rightarrow> Animation list \<Rightarrow> string" where
  "animationEntries n i [] = []"
| "animationEntries n i (anim # anims) =
     ''  '' @ name anim @ '': new Animation({\<newline>''
     @ ''    frames: [\<newline>''
     @ animFrameLines (int (length (frames anim))) 0 (frames anim)
     @ ''    ]''
     @ '',\<newline>    strategy: AnimationStrategy.'' @ strategyMap (loopStrategy anim)
     @ ''\<newline>  })''
     @ (if i < n - 1 then '',\<newline>'' else ''\<newline>'')
     @ animationEntries n (i + 1) anims"

definition animationsCode :: "string \<Rightarrow> Animation list \<Rightarrow> string" where
  "animationsCode groupName anims =
     ''// Animation definitions\<newline>''
     @ ''export const '' @ groupName @ '' = {\<newline>''
     @ animationEntries (int (length anims)) 0 anims
     @ ''};\<newline>''"

text \<open>\<open>generateCode\<close>: the empty string without an image or without frames.\<close>

definition generateCode :: "App \<Rightarrow> string" where
  "generateCode s =
     (if image_el s = None \<or> appFrames s = [] then []
      else
        codePreamble (imagePath s)
        @ (case parseMode s of
             Some Grid \<Rightarrow> gridCode (gridConfig s)
           | Some Sourceview \<Rightarrow> sourceViewCode (sourceViews s)
           | None \<Rightarrow> [])
        @ animationsCode (animationGroupName s) (animations s))"

section \<open>Auxiliary notions for the proofs\<close>

text \<open>
  The loop invariant of \<open>parseGridFrames\<close>: \<open>i\<close> frames have been pushed, and the frame
  at position \<open>k\<close> is the one of row \<open>k div columns\<close> and column \<open>k mod columns\<close>.
\<close>

definition gridInv :: "GridConfig \<Rightarrow> int \<Rightarrow> Frame list \<Rightarrow> bool" where
  "gridInv g i fs \<longleftrightarrow>
     0 \<le> i \<and> length fs = nat i \<and>
     (\<forall>k<length fs. fs ! k = gridFrame g (int k div columns g) (int k mod columns g) (int k))"

text \<open>
  The state between two callbacks while animation \<open>k\<close> is being played: it is selected
  and exists, playback is on, a request is outstanding, and the closure's \<open>frameIdx\<close>
  is a position of the animation and agrees with \<open>currentFrameIdx\<close>.
\<close>

definition playing :: "nat \<Rightarrow> Player \<Rightarrow> bool" where
  "playing k p \<longleftrightarrow>
     selectedAnimation p = Some k \<and> k < length (animations p) \<and>
     isPlaying p \<and> requested p \<and>
     0 \<le> frameIdx p \<and> frameIdx p < int (length (frames (animations p ! k))) \<and>
     currentFrameIdx p = frameIdx p"

text \<open>The condition \<open>elapsed >= currentAnimFrame.duration\<close> of a callback at time \<open>t\<close>.\<close>

definition fires :: "nat \<Rightarrow> real \<Rightarrow> Player \<Rightarrow> bool" where
  "fires k t p \<longleftrightarrow>
     real_of_int (duration (frames (animations p ! k) ! nat (frameIdx p))) \<le> t - lastTime p"

text \<open>
  \<open>adjacent a b xs\<close>: somewhere in \<open>xs\<close> an \<open>a\<close> is directly followed by a \<open>b\<close>. It serves to
  show that a key word does not occur in a generated text.
\<close>

fun adjacent :: "'a \<Rightarrow> 'a \<Rightarrow> 'a list \<Rightarrow> bool" where
  "adjacent a b [] \<longleftrightarrow> False"
| "adjacent a b [x] \<longleftrightarrow> False"
| "adjacent a b (x # y # zs) \<longleftrightarrow> (x = a \<and> y = b) \<or> adjacent a b (y # zs)"

text \<open>
  A sequence of callbacks in the order of time, starting after \<open>l\<close>: every callback comes
  no earlier than the previous reading of the clock, and the effects that follow a
  callback read the clock no earlier than the time stamp of that callback.
\<close>

fun ascending :: "real \<Rightarrow> (real \<times> real) list \<Rightarrow> bool" where
  "ascending l [] \<longleftrightarrow> True"
| "ascending l (tn # tns) \<longleftrightarrow> l \<le> fst tn \<and> fst tn \<le> snd tn \<and> ascending (snd tn) tns"

section \<open>Example states\<close>

text \<open>The state after \<open>handleImageLoad\<close> has stored an image of 48 by 32 pixels.\<close>

definition loadedApp :: App where
  "loadedApp = initialApp\<lparr>image_el := Some \<lparr> img_width = 48, img_height = 32 \<rparr>, imagePath := ''sheet.png''\<rparr>"

text \<open>The grid of two rows and three columns of 16 by 16 sprites.\<close>

definition gridApp :: App where
  "gridApp =
     loadedApp\<lparr>parseMode := Some Grid,
       gridConfig := \<lparr> spriteWidth = 16, spriteHeight = 16, rows = 2, columns = 3,
                       originOffset = \<lparr> vx = 0, vy = 0 \<rparr>, margin = \<lparr> vx = 0, vy = 0 \<rparr> \<rparr>\<rparr>"

text \<open>A grid of one row and one column whose sprite width was set to 0.\<close>

definition flatApp :: App where
  "flatApp = loadedApp\<lparr>parseMode := Some Grid, gridConfig := (gridConfig loadedApp)\<lparr>spriteWidth := 0\<rparr>\<rparr>"

text \<open>Two source views entered by hand.\<close>

definition viewsApp :: App where
  "viewsApp =
     loadedApp\<lparr>parseMode := Some Sourceview,
       sourceViews := [\<lparr> sv_x = 0, sv_y = 0, sv_width = 16, sv_height = 24 \<rparr>,
                       \<lparr> sv_x = 20, sv_y = 4, sv_width = 8, sv_height = 8 \<rparr>]\<rparr>"

text \<open>
  One selected animation with the given strategy and frames, at the position
  \<open>idx\<close> of the preview.
\<close>

definition previewApp :: "LoopStrategy \<Rightarrow> AnimationFrame list \<Rightarrow> int \<Rightarrow> App" where
  "previewApp strategy fs idx =
     loadedApp\<lparr>animations := [\<lparr> name = ''Animation1'', frames = fs, loopStrategy = strategy \<rparr>],
       selectedAnimation := Some 0, currentFrameIdx := idx\<rparr>"

definition threeFrames :: "AnimationFrame list" where
  "threeFrames =
     [\<lparr> frameIndex = 0, duration = 150 \<rparr>, \<lparr> frameIndex = 1, duration = 150 \<rparr>,
      \<lparr> frameIndex = 2, duration = 150 \<rparr>]"

definition oneFrame :: "AnimationFrame list" where
  "oneFrame = [\<lparr> frameIndex = 0, duration = 150 \<rparr>]"

text \<open>Two frames added while the default duration field held 0.\<close>

definition zeroFrames :: "AnimationFrame list" where
  "zeroFrames = [\<lparr> frameIndex = 0, duration = 0 \<rparr>, \<lparr> frameIndex = 1, duration = 0 \<rparr>]"

text \<open>
  A state ready for export: the frames of \<open>gridApp\<close> parsed, an offset of 2 pixels to
  the right, and one animation of two frames.
\<close>

definition exportApp :: App where
  "exportApp =
     (parseGridFrames gridApp)\<lparr>
       gridConfig := (gridConfig gridApp)\<lparr>originOffset := \<lparr> vx = 2, vy = 0 \<rparr>\<rparr>,
       animations := [\<lparr> name = ''Walk'',
                        frames = [\<lparr> frameIndex = 0, duration = 150 \<rparr>, \<lparr> frameIndex = 4, duration = 90 \<rparr>],
                        loopStrategy = PingPong \<rparr>],
       selectedAnimation := Some 0\<rparr>"

section \<open>Properties of the frame resolver\<close>

declare colLoop.simps [simp del] rowLoop.simps [simp del] showNat.simps [simp del]

lemma gridInv_Nil: "gridInv g 0 []"
  by (simp add: gridInv_def)

lemma gridInv_length: "gridInv g i fs \<Longrightarrow> length fs = nat i"
  by (simp add: gridInv_def)

lemma colLoop_inv:
  "0 \<le> row \<Longrightarrow> 0 \<le> col \<Longrightarrow> col \<le> columns g \<Longrightarrow> i = row * columns g + col \<Longrightarrow> gridInv g i fs
   \<Longrightarrow> colLoop g row col i fs = (i', fs') \<Longrightarrow> i' = (row + 1) * columns g \<and> gridInv g i' fs'"
proof (induction g row col i fs rule: colLoop.induct)
  case (1 g row col i newFrames)
  show ?case
  proof (cases "col < columns g")
    case True
    have dm: "i div columns g = row" "i mod columns g = col"
      using True 1(3) 1(5) by (auto simp: div_pos_pos_trivial mod_pos_pos_trivial)
    have inv': "gridInv g (i + 1) (newFrames @ [gridFrame g row col i])"
      using 1(6) dm unfolding gridInv_def
      by (auto simp: nth_append nat_add_distrib less_Suc_eq)
    have "colLoop g row (col + 1) (i + 1) (newFrames @ [gridFrame g row col i]) = (i', fs')"
      using 1(7) True by (subst (asm) colLoop.simps) simp
    moreover have "0 \<le> col + 1" "col + 1 \<le> columns g" "i + 1 = row * columns g + (col + 1)"
      using True 1(3) 1(5) by simp_all
    ultimately show ?thesis
      using 1(1)[OF True 1(2) _ _ _ inv'] by blast
  next
    case False
    then have "i' = i" "fs' = newFrames" using 1(7) by (subst (asm) colLoop.simps, simp)+
    moreover have "col = columns g" using False 1(4) by simp
    ultimately show ?thesis using 1(5,6) by (simp add: algebra_simps)
  qed
qed

lemma rowLoop_inv:
  "0 \<le> row \<Longrightarrow> 0 \<le> columns g \<Longrightarrow> row \<le> rows g \<Longrightarrow> i = row * columns g \<Longrightarrow> gridInv g i fs
   \<Longrightarrow> gridInv g (rows g * columns g) (rowLoop g row i fs)"
proof (induction g row i fs rule: rowLoop.induct)
  case (1 g row i newFrames)
  show ?case
  proof (cases "row < rows g")
    case True
    obtain i' fs' where c: "colLoop g row 0 i newFrames = (i', fs')"
      by (cases "colLoop g row 0 i newFrames")
    have "i = row * columns g + 0" using 1(5) by simp
    from colLoop_inv[OF 1(2) _ 1(3) this 1(6) c]
    have r: "i' = (row + 1) * columns g" "gridInv g i' fs'" by blast+
    have "gridInv g (rows g * columns g) (rowLoop g (row + 1) i' fs')"
      using 1(1)[OF True c[symmetric] _ 1(3) _ r(1) r(2)] True 1(2) by simp
    then show ?thesis using True c by (subst rowLoop.simps) simp
  next
    case False
    then have "row = rows g" using 1(4) by simp
    then show ?thesis using 1(5,6) False by (subst rowLoop.simps) simp
  qed
qed

lemma rowLoop_grid:
  assumes "0 < rows g" "0 < columns g"
  shows "gridInv g (rows g * columns g) (rowLoop g 0 0 [])"
  using rowLoop_inv[of 0 g 0 "[]"] assms gridInv_Nil by simp

lemma rowLoop_no_rows: "rows g \<le> 0 \<Longrightarrow> rowLoop g 0 0 [] = []"
  by (subst rowLoop.simps) simp

lemma colLoop_no_columns: "columns g \<le> 0 \<Longrightarrow> colLoop g row 0 i fs = (i, fs)"
  by (subst colLoop.simps) simp

lemma rowLoop_no_columns: "columns g \<le> 0 \<Longrightarrow> rowLoop g row i [] = []"
proof (induction g row i "[] :: Frame list" rule: rowLoop.induct)
  case (1 g row i)
  show ?case
    by (subst rowLoop.simps) (use 1 in \<open>simp add: colLoop_no_columns\<close>)
qed

lemma parseGridFrames_loaded:
  "image_el s \<noteq> None \<Longrightarrow> appFrames (parseGridFrames s) = rowLoop (gridConfig s) 0 0 []"
  by (auto simp: parseGridFrames_def)

text \<open>
  Claim C1. With an image loaded and positive \<open>rows\<close> and \<open>columns\<close>, \<open>parseGridFrames\<close>
  stores exactly \<open>rows * columns\<close> frames in row-major order: the frame at position
  \<open>row * columns + col\<close> has that number as \<open>index\<close>,
  \<open>x = originOffset.x + col * (spriteWidth + margin.x)\<close>,
  \<open>y = originOffset.y + row * (spriteHeight + margin.y)\<close>, and the configured width and
  height. The example instantiates it at the grid of 2 rows and 3 columns of 16 by 16
  sprites, where frame 4 lies at \<open>(16, 16)\<close>.
\<close>

theorem parseGridFrames_row_major:
  assumes "image_el s \<noteq> None" and "0 < rows (gridConfig s)" and "0 < columns (gridConfig s)"
  shows "length (appFrames (parseGridFrames s)) = nat (rows (gridConfig s) * columns (gridConfig s)) \<and>
    (\<forall>row col. 0 \<le> row \<and> row < rows (gridConfig s) \<and> 0 \<le> col \<and> col < columns (gridConfig s) \<longrightarrow>
       appFrames (parseGridFrames s) ! nat (row * columns (gridConfig s) + col) =
         \<lparr> index = row * columns (gridConfig s) + col,
           f_x = vx (originOffset (gridConfig s))
                 + col * (spriteWidth (gridConfig s) + vx (margin (gridConfig s))),
           f_y = vy (originOffset (gridConfig s))
                 + row * (spriteHeight (gridConfig s) + vy (margin (gridConfig s))),
           f_width = spriteWidth (gridConfig s),
           f_height = spriteHeight (gridConfig s) \<rparr>)"
proof -
  let ?g = "gridConfig s"
  let ?fs = "rowLoop ?g 0 0 []"
  have inv: "gridInv ?g (rows ?g * columns ?g) ?fs"
    using assms(2,3) by (rule rowLoop_grid)
  have len: "length ?fs = nat (rows ?g * columns ?g)"
    using inv by (rule gridInv_length)
  have nth: "?fs ! nat (row * columns ?g + col) = gridFrame ?g row col (row * columns ?g + col)"
    if "0 \<le> row" "row < rows ?g" "0 \<le> col" "col < columns ?g" for row col
  proof -
    let ?k = "row * columns ?g + col"
    have "?k < (row + 1) * columns ?g" using that by (simp add: algebra_simps)
    also have "\<dots> \<le> rows ?g * columns ?g" using that assms by (intro mult_right_mono) auto
    finally have up: "?k < rows ?g * columns ?g" .
    have lo: "0 \<le> ?k" using that assms by simp
    have k: "nat ?k < length ?fs" using len up lo by simp
    have dm: "?k div columns ?g = row" "?k mod columns ?g = col"
      using that by (auto simp: div_pos_pos_trivial mod_pos_pos_trivial)
    from inv k have "?fs ! nat ?k =
       gridFrame ?g (int (nat ?k) div columns ?g) (int (nat ?k) mod columns ?g) (int (nat ?k))"
      unfolding gridInv_def by blast
    then show ?thesis using dm lo by simp
  qed
  show ?thesis
    using parseGridFrames_loaded[OF assms(1)] len nth by (simp add: gridFrame_def)
qed

theorem parseGridFrames_row_major_example:
  "image_el gridApp \<noteq> None \<and> 0 < rows (gridConfig gridApp) \<and> 0 < columns (gridConfig gridApp) \<and>
   length (appFrames (parseGridFrames gridApp)) = 6 \<and>
   appFrames (parseGridFrames gridApp) ! 4 =
     \<lparr> index = 4, f_x = 16, f_y = 16, f_width = 16, f_height = 16 \<rparr>"
proof -
  have h: "image_el gridApp \<noteq> None" "0 < rows (gridConfig gridApp)" "0 < columns (gridConfig gridApp)"
    by (simp_all add: gridApp_def loadedApp_def initialApp_def)
  have g: "gridConfig gridApp = \<lparr> spriteWidth = 16, spriteHeight = 16, rows = 2, columns = 3,
                       originOffset = \<lparr> vx = 0, vy = 0 \<rparr>, margin = \<lparr> vx = 0, vy = 0 \<rparr> \<rparr>"
    by (simp add: gridApp_def)
  from parseGridFrames_row_major[OF h]
  have len: "length (appFrames (parseGridFrames gridApp)) = nat (rows (gridConfig gridApp) * columns (gridConfig gridApp))"
    and nth: "\<And>row col. 0 \<le> row \<and> row < rows (gridConfig gridApp) \<and> 0 \<le> col \<and> col < columns (gridConfig gridApp) \<Longrightarrow>
       appFrames (parseGridFrames gridApp) ! nat (row * columns (gridConfig gridApp) + col) =
         \<lparr> index = row * columns (gridConfig gridApp) + col,
           f_x = vx (originOffset (gridConfig gridApp))
                 + col * (spriteWidth (gridConfig gridApp) + vx (margin (gridConfig gridApp))),
           f_y = vy (originOffset (gridConfig gridApp))
                 + row * (spriteHeight (gridConfig gridApp) + vy (margin (gridConfig gridApp))),
           f_width = spriteWidth (gridConfig gridApp),
           f_height = spriteHeight (gridConfig gridApp) \<rparr>"
    by blast+
  from len have "length (appFrames (parseGridFrames gridApp)) = 6" by (simp add: g)
  moreover from nth[of 1 1] have "appFrames (parseGridFrames gridApp) ! 4 =
     \<lparr> index = 4, f_x = 16, f_y = 16, f_width = 16, f_height = 16 \<rparr>" by (simp add: g)
  ultimately show ?thesis using h by blast
qed

lemma parseGridFrames_nonempty:
  assumes "image_el s \<noteq> None" and "0 < rows (gridConfig s)" and "0 < columns (gridConfig s)"
  shows "appFrames (parseGridFrames s) \<noteq> []"
proof -
  have "0 < rows (gridConfig s) * columns (gridConfig s)" using assms(2,3) by simp
  moreover have "length (rowLoop (gridConfig s) 0 0 []) = nat (rows (gridConfig s) * columns (gridConfig s))"
    using rowLoop_grid[OF assms(2,3)] by (rule gridInv_length)
  ultimately have "rowLoop (gridConfig s) 0 0 [] \<noteq> []" by auto
  then show ?thesis using parseGridFrames_loaded[OF assms(1)] by simp
qed

lemma gridInv_size:
  assumes "gridInv g i fs"
  shows "list_all (\<lambda>f. f_width f = spriteWidth g \<and> f_height f = spriteHeight g) fs"
  unfolding list_all_length
proof (intro allI impI)
  fix k
  assume "k < length fs"
  then have "fs ! k = gridFrame g (int k div columns g) (int k mod columns g) (int k)"
    using assms by (simp add: gridInv_def)
  then show "f_width (fs ! k) = spriteWidth g \<and> f_height (fs ! k) = spriteHeight g"
    by (simp add: gridFrame_def)
qed

text \<open>
  Claim C3, as the code has it. With an image loaded, \<open>parseGridFrames\<close> stores the
  empty list exactly when \<open>rows \<le> 0\<close> or \<open>columns \<le> 0\<close>; it cannot raise. A
  non-positive sprite width or height does not empty the result: with positive
  \<open>rows\<close> and \<open>columns\<close> there are \<open>rows * columns\<close> frames, each of the configured width
  and height, whatever their sign.
\<close>

theorem parseGridFrames_empty_iff:
  assumes "image_el s \<noteq> None"
  shows "(appFrames (parseGridFrames s) = [] \<longleftrightarrow>
            rows (gridConfig s) \<le> 0 \<or> columns (gridConfig s) \<le> 0) \<and>
         (0 < rows (gridConfig s) \<and> 0 < columns (gridConfig s) \<longrightarrow>
            length (appFrames (parseGridFrames s)) =
              nat (rows (gridConfig s) * columns (gridConfig s)) \<and>
            list_all (\<lambda>f. f_width f = spriteWidth (gridConfig s) \<and>
                           f_height f = spriteHeight (gridConfig s))
              (appFrames (parseGridFrames s)))"
proof (intro conjI impI)
  show "appFrames (parseGridFrames s) = [] \<longleftrightarrow>
            rows (gridConfig s) \<le> 0 \<or> columns (gridConfig s) \<le> 0"
  proof (cases "rows (gridConfig s) \<le> 0 \<or> columns (gridConfig s) \<le> 0")
    case True
    then show ?thesis
      using parseGridFrames_loaded[OF assms] rowLoop_no_rows rowLoop_no_columns by auto
  next
    case False
    then have "0 < rows (gridConfig s)" "0 < columns (gridConfig s)" by simp_all
    then have "appFrames (parseGridFrames s) \<noteq> []" by (rule parseGridFrames_nonempty[OF assms])
    then show ?thesis using False by simp
  qed
next
  assume pos: "0 < rows (gridConfig s) \<and> 0 < columns (gridConfig s)"
  then have inv: "gridInv (gridConfig s) (rows (gridConfig s) * columns (gridConfig s))
                    (rowLoop (gridConfig s) 0 0 [])"
    by (intro rowLoop_grid) simp_all
  show "length (appFrames (parseGridFrames s)) = nat (rows (gridConfig s) * columns (gridConfig s))"
    using gridInv_length[OF inv] parseGridFrames_loaded[OF assms] by simp
  show "list_all (\<lambda>f. f_width f = spriteWidth (gridConfig s) \<and>
                           f_height f = spriteHeight (gridConfig s))
              (appFrames (parseGridFrames s))"
    using gridInv_size[OF inv] parseGridFrames_loaded[OF assms] by simp
qed

theorem parseGridFrames_empty_iff_example:
  "image_el (gridApp\<lparr>gridConfig := (gridConfig gridApp)\<lparr>rows := 0\<rparr>\<rparr>) \<noteq> None \<and>
   appFrames (parseGridFrames (gridApp\<lparr>gridConfig := (gridConfig gridApp)\<lparr>rows := 0\<rparr>\<rparr>)) = [] \<and>
   image_el flatApp \<noteq> None \<and>
   length (appFrames (parseGridFrames flatApp)) = 1 \<and>
   list_all (\<lambda>f. f_width f = 0 \<and> f_height f = 32) (appFrames (parseGridFrames flatApp))"
  using parseGridFrames_empty_iff[of "gridApp\<lparr>gridConfig := (gridConfig gridApp)\<lparr>rows := 0\<rparr>\<rparr>"]
    parseGridFrames_empty_iff[of flatApp]
  by (simp add: gridApp_def flatApp_def loadedApp_def initialApp_def)

text \<open>
  Claim C3 fails as stated: a sprite width of 0 with one row and one column gives one
  frame, of width 0.
\<close>

theorem zero_width_grid_not_empty:
  "spriteWidth (gridConfig flatApp) \<le> 0 \<and>
   appFrames (parseGridFrames flatApp) =
     [\<lparr> index = 0, f_x = 0, f_y = 0, f_width = 0, f_height = 32 \<rparr>]"
  by (simp add: flatApp_def loadedApp_def initialApp_def parseGridFrames_def
      rowLoop.simps colLoop.simps gridFrame_def)

lemma length_mapIndexed: "length (mapIndexed f i xs) = length xs"
  by (induction xs arbitrary: i) simp_all

lemma nth_mapIndexed: "k < length xs \<Longrightarrow> mapIndexed f i xs ! k = f (xs ! k) (i + int k)"
proof (induction xs arbitrary: i k)
  case Nil
  then show ?case by simp
next
  case (Cons a xs)
  show ?case
  proof (cases k)
    case 0
    then show ?thesis by simp
  next
    case (Suc j)
    then have "j < length xs" using Cons.prems by simp
    from Cons.IH[OF this, of "i + 1"] show ?thesis using Suc by (simp add: algebra_simps)
  qed
qed

text \<open>
  Claim C4. For every list of source views, the empty one included,
  \<open>parseSourceViewFrames\<close> stores a list of the same length whose frame at position
  \<open>k\<close> has \<open>index = k\<close> and the \<open>x\<close>, \<open>y\<close>, \<open>width\<close> and \<open>height\<close> of the \<open>k\<close>-th source
  view.
\<close>

theorem parseSourceViewFrames_pointwise:
  "length (appFrames (parseSourceViewFrames s)) = length (sourceViews s) \<and>
   (\<forall>k<length (sourceViews s).
      appFrames (parseSourceViewFrames s) ! k =
        \<lparr> index = int k, f_x = sv_x (sourceViews s ! k), f_y = sv_y (sourceViews s ! k),
          f_width = sv_width (sourceViews s ! k), f_height = sv_height (sourceViews s ! k) \<rparr>)"
proof (intro conjI allI impI)
  show "length (appFrames (parseSourceViewFrames s)) = length (sourceViews s)"
    by (simp add: parseSourceViewFrames_def length_mapIndexed)
next
  fix k
  assume "k < length (sourceViews s)"
  then have "mapIndexed sourceViewFrame 0 (sourceViews s) ! k = sourceViewFrame (sourceViews s ! k) (0 + int k)"
    by (rule nth_mapIndexed)
  then show "appFrames (parseSourceViewFrames s) ! k =
        \<lparr> index = int k, f_x = sv_x (sourceViews s ! k), f_y = sv_y (sourceViews s ! k),
          f_width = sv_width (sourceViews s ! k), f_height = sv_height (sourceViews s ! k) \<rparr>"
    by (simp add: parseSourceViewFrames_def sourceViewFrame_def)
qed

theorem parseSourceViewFrames_pointwise_example:
  "length (appFrames (parseSourceViewFrames viewsApp)) = 2 \<and>
   appFrames (parseSourceViewFrames viewsApp) ! 1 =
     \<lparr> index = 1, f_x = 20, f_y = 4, f_width = 8, f_height = 8 \<rparr> \<and>
   appFrames (parseSourceViewFrames (viewsApp\<lparr>sourceViews := []\<rparr>)) = []"
  using parseSourceViewFrames_pointwise[of viewsApp]
    parseSourceViewFrames_pointwise[of "viewsApp\<lparr>sourceViews := []\<rparr>"]
  by (simp add: viewsApp_def)

section \<open>Properties of the playback\<close>

subsection \<open>One call of \<open>animate\<close>\<close>

lemma animate_waits:
  assumes "0 \<le> frameIdx p" and "frameIdx p < int (length (frames anim))"
    and "\<not> real_of_int (duration (frames anim ! nat (frameIdx p))) \<le> t - lastTime p"
  shows "animate anim t p = Inr (p\<lparr>requested := True\<rparr>)"
  using assms by (simp add: animate_def Let_def)

lemma animate_Freeze:
  assumes "0 \<le> frameIdx p" and "frameIdx p < int (length (frames anim))"
    and "real_of_int (duration (frames anim ! nat (frameIdx p))) \<le> t - lastTime p"
    and "loopStrategy anim = Freeze"
  shows "animate anim t p =
           Inr (p\<lparr>lastTime := t, frameIdx := min (frameIdx p + 1) (int (length (frames anim)) - 1),
                  currentFrameIdx := min (frameIdx p + 1) (int (length (frames anim)) - 1),
                  requested := True\<rparr>)"
  using assms by (simp add: animate_def Let_def min_def)

lemma animate_End_inner:
  assumes "0 \<le> frameIdx p" and "frameIdx p + 1 < int (length (frames anim))"
    and "real_of_int (duration (frames anim ! nat (frameIdx p))) \<le> t - lastTime p"
    and "loopStrategy anim = End"
  shows "animate anim t p =
           Inr (p\<lparr>lastTime := t, frameIdx := frameIdx p + 1, currentFrameIdx := frameIdx p + 1,
                  requested := True\<rparr>)"
  using assms by (simp add: animate_def Let_def)

lemma animate_End_last:
  assumes "0 \<le> frameIdx p" and "frameIdx p + 1 = int (length (frames anim))"
    and "real_of_int (duration (frames anim ! nat (frameIdx p))) \<le> t - lastTime p"
    and "loopStrategy anim = End"
  shows "animate anim t p =
           Inr (p\<lparr>lastTime := t, frameIdx := frameIdx p + 1, isPlaying := False, requested := False\<rparr>)"
  using assms by (simp add: animate_def Let_def)

lemma animate_Loop:
  assumes "0 \<le> frameIdx p" and "frameIdx p < int (length (frames anim))"
    and "real_of_int (duration (frames anim ! nat (frameIdx p))) \<le> t - lastTime p"
    and "loopStrategy anim = Loop"
  shows "animate anim t p =
           Inr (p\<lparr>lastTime := t, frameIdx := (frameIdx p + 1) mod int (length (frames anim)),
                  currentFrameIdx := (frameIdx p + 1) mod int (length (frames anim)),
                  requested := True\<rparr>)"
  using assms by (simp add: animate_def Let_def)

lemma animate_PingPong:
  assumes "0 \<le> frameIdx p" and "frameIdx p < int (length (frames anim))"
    and "real_of_int (duration (frames anim ! nat (frameIdx p))) \<le> t - lastTime p"
    and "loopStrategy anim = PingPong"
  shows "animate anim t p =
           (if int (length (frames anim)) \<le> frameIdx p + direction p
            then Inr (p\<lparr>lastTime := t, frameIdx := int (length (frames anim)) - 2, direction := - 1,
                        currentFrameIdx := int (length (frames anim)) - 2, requested := True\<rparr>)
            else if frameIdx p + direction p < 0
            then Inr (p\<lparr>lastTime := t, frameIdx := 1, direction := 1, currentFrameIdx := 1,
                        requested := True\<rparr>)
            else Inr (p\<lparr>lastTime := t, frameIdx := frameIdx p + direction p,
                        currentFrameIdx := frameIdx p + direction p, requested := True\<rparr>))"
  using assms by (simp add: animate_def Let_def)

lemma PingPong_bounce:
  assumes "loopStrategy anim = PingPong"
    and "0 \<le> frameIdx p" and "frameIdx p = int (length (frames anim)) - 1"
    and "direction p = 1"
    and "real_of_int (duration (frames anim ! nat (frameIdx p))) \<le> t - lastTime p"
  shows "\<exists>p'. animate anim t p = Inr p' \<and> direction p' = - 1 \<and>
           frameIdx p' = int (length (frames anim)) - 2 \<and> currentFrameIdx p' = frameIdx p'"
  using assms by (simp add: animate_PingPong)

lemma animate_in_bounds:
  assumes "2 \<le> length (frames anim)"
    and "0 \<le> frameIdx p" and "frameIdx p < int (length (frames anim))"
    and "currentFrameIdx p = frameIdx p"
    and "direction p = 1 \<or> direction p = - 1"
  shows "\<exists>p'. animate anim t p = Inr p' \<and>
           0 \<le> currentFrameIdx p' \<and> currentFrameIdx p' < int (length (frames anim)) \<and>
           (requested p' \<longrightarrow>
              frameIdx p' = currentFrameIdx p' \<and> (direction p' = 1 \<or> direction p' = - 1))"
proof (cases "real_of_int (duration (frames anim ! nat (frameIdx p))) \<le> t - lastTime p")
  case False
  then show ?thesis using assms by (simp add: animate_waits)
next
  case fire: True
  have len: "0 < int (length (frames anim))" using assms(1) by linarith
  show ?thesis
  proof (cases "loopStrategy anim")
    case Freeze
    then show ?thesis using assms fire by (auto simp: animate_Freeze min_def)
  next
    case End
    show ?thesis
    proof (cases "frameIdx p + 1 < int (length (frames anim))")
      case True
      then show ?thesis using assms fire End by (simp add: animate_End_inner)
    next
      case False
      then have "frameIdx p + 1 = int (length (frames anim))" using assms(3) by simp
      then show ?thesis using assms fire End by (simp add: animate_End_last)
    qed
  next
    case Loop
    have "0 \<le> (frameIdx p + 1) mod int (length (frames anim))"
      "(frameIdx p + 1) mod int (length (frames anim)) < int (length (frames anim))"
      using len by simp_all
    then show ?thesis using assms fire Loop by (simp add: animate_Loop)
  next
    case PingPong
    then show ?thesis using assms fire by (auto simp: animate_PingPong)
  qed
qed

lemmas player_defs = play_def previewEffect_def previewApp_def threeFrames_def loadedApp_def
  initialApp_def

subsection \<open>Callbacks followed by the effects\<close>

lemma previewEffect_playing:
  assumes "selectedAnimation p = Some k" and "k < length (animations p)" and "isPlaying p"
    and "frames (animations p ! k) \<noteq> []"
  shows "previewEffect now p =
           p\<lparr>frameIdx := currentFrameIdx p, lastTime := now, direction := 1, requested := True\<rparr>"
  using assms by (simp add: previewEffect_def)

lemma previewEffect_paused: "\<not> isPlaying p \<Longrightarrow> previewEffect now p = p\<lparr>requested := False\<rparr>"
  by (simp add: previewEffect_def)

lemma drawPreview_in_range:
  assumes "selectedAnimation p = Some k"
    and "0 \<le> currentFrameIdx p" and "currentFrameIdx p < int (length (frames (animations p ! k)))"
  shows "drawPreview p = p"
  using assms by (simp add: drawPreview_def)

lemma rerender_playing:
  assumes "selectedAnimation p = Some k" and "k < length (animations p)" and "isPlaying p"
    and "0 \<le> currentFrameIdx p" and "currentFrameIdx p < int (length (frames (animations p ! k)))"
  shows "rerender now p =
           p\<lparr>frameIdx := currentFrameIdx p, lastTime := now, direction := 1, requested := True\<rparr>"
proof -
  have ne: "frames (animations p ! k) \<noteq> []" using assms(4,5) by auto
  let ?q = "p\<lparr>frameIdx := currentFrameIdx p, lastTime := now, direction := 1, requested := True\<rparr>"
  have "previewEffect now p = ?q" using assms(1-3) ne by (rule previewEffect_playing)
  moreover have "drawPreview ?q = ?q" using assms by (intro drawPreview_in_range[where k = k]) simp_all
  ultimately show ?thesis by (simp add: rerender_def)
qed

lemma play_playing:
  assumes "selectedAnimation s = Some k" and "k < length (animations s)"
    and "0 \<le> currentFrameIdx s" and "currentFrameIdx s < int (length (frames (animations s ! k)))"
  shows "playing k (play now s)"
proof -
  have "frames (animations s ! k) \<noteq> []" using assms(3,4) by auto
  then show ?thesis using assms by (simp add: play_def previewEffect_def playing_def)
qed

lemma tick_playing:
  assumes "playing k p"
  shows "tick (t, now) p =
           (case animate (animations p ! k) t p of
              Inl e \<Rightarrow> Inl e
            | Inr p' \<Rightarrow>
                if currentFrameIdx p' \<noteq> currentFrameIdx p then Inr (rerender now p')
                else if isPlaying p' \<noteq> isPlaying p then Inr (previewEffect now p')
                else Inr p')"
  using assms by (simp add: tick_def playing_def)

lemma tick_not_requested: "\<not> requested p \<Longrightarrow> tick tn p = Inr p"
  by (cases tn) (simp add: tick_def)

lemma ticks_not_requested:
  "\<not> requested p \<Longrightarrow>
     ticks tns p = Inr p \<and> visited tns p = replicate (length tns) (currentFrameIdx p)"
  by (induction tns) (simp_all add: tick_not_requested)

lemma tick_waits:
  assumes "playing k p" and "\<not> fires k t p"
  shows "tick (t, now) p = Inr p"
proof -
  have "animate (animations p ! k) t p = Inr (p\<lparr>requested := True\<rparr>)"
    using assms by (intro animate_waits) (simp_all add: playing_def fires_def)
  moreover have "p\<lparr>requested := True\<rparr> = p" using assms(1) by (simp add: playing_def)
  ultimately show ?thesis using assms(1) by (simp add: tick_playing)
qed

lemma animate_frame:
  assumes "animate anim t p = Inr p'"
  shows "selectedAnimation p' = selectedAnimation p \<and> animations p' = animations p \<and>
         (isPlaying p' \<noteq> isPlaying p \<longrightarrow> currentFrameIdx p' = currentFrameIdx p \<and> \<not> isPlaying p') \<and>
         (requested p' \<longrightarrow> isPlaying p' = isPlaying p)"
  using assms by (simp add: animate_def Let_def split: if_splits) auto

text \<open>
  The bound carries over to whole callbacks and to any sequence of them: during the
  playback of an animation of at least two frames every index seen is a position of
  the animation.
\<close>

lemma tick_in_bounds:
  assumes "playing k p" and "direction p = 1 \<or> direction p = - 1"
    and "2 \<le> length (frames (animations p ! k))"
  shows "\<exists>p'. tick (t, now) p = Inr p' \<and> animations p' = animations p \<and>
           0 \<le> currentFrameIdx p' \<and> currentFrameIdx p' < int (length (frames (animations p ! k))) \<and>
           (requested p' \<longrightarrow> playing k p' \<and> (direction p' = 1 \<or> direction p' = - 1))"
proof -
  let ?anim = "animations p ! k"
  have pl: "selectedAnimation p = Some k" "k < length (animations p)" "isPlaying p"
    "0 \<le> frameIdx p" "frameIdx p < int (length (frames ?anim))" "currentFrameIdx p = frameIdx p"
    using assms(1) by (simp_all add: playing_def)
  from animate_in_bounds[OF assms(3) pl(4,5,6) assms(2), of t]
  obtain q where q: "animate ?anim t p = Inr q" "0 \<le> currentFrameIdx q"
    "currentFrameIdx q < int (length (frames ?anim))"
    "requested q \<longrightarrow> frameIdx q = currentFrameIdx q \<and> (direction q = 1 \<or> direction q = - 1)"
    by blast
  from animate_frame[OF q(1)]
  have fr: "selectedAnimation q = Some k" "animations q = animations p"
    "isPlaying q \<noteq> isPlaying p \<longrightarrow> currentFrameIdx q = currentFrameIdx p \<and> \<not> isPlaying q"
    "requested q \<longrightarrow> isPlaying q = isPlaying p"
    using pl(1) by auto
  show ?thesis
  proof (cases "currentFrameIdx q \<noteq> currentFrameIdx p")
    case True
    then have "isPlaying q" using fr(3) pl(3) by auto
    then have "rerender now q =
        q\<lparr>frameIdx := currentFrameIdx q, lastTime := now, direction := 1, requested := True\<rparr>"
      using fr q pl by (intro rerender_playing[where k = k]) simp_all
    then have "tick (t, now) p =
        Inr (q\<lparr>frameIdx := currentFrameIdx q, lastTime := now, direction := 1, requested := True\<rparr>)"
      using q(1) True assms(1) by (simp add: tick_playing)
    then show ?thesis using q fr pl \<open>isPlaying q\<close> by (simp add: playing_def)
  next
    case same: False
    show ?thesis
    proof (cases "isPlaying q \<noteq> isPlaying p")
      case True
      then have "\<not> isPlaying q" using pl(3) by simp
      then have "previewEffect now q = q\<lparr>requested := False\<rparr>" by (rule previewEffect_paused)
      then have "tick (t, now) p = Inr (q\<lparr>requested := False\<rparr>)"
        using q(1) same True assms(1) by (simp add: tick_playing)
      then show ?thesis using q fr by simp
    next
      case False
      then have "tick (t, now) p = Inr q" using q(1) same assms(1) by (simp add: tick_playing)
      then show ?thesis using q fr pl False by (auto simp: playing_def)
    qed
  qed
qed

lemma visited_in_bounds:
  assumes "playing k p" and "direction p = 1 \<or> direction p = - 1"
    and "2 \<le> length (frames (animations p ! k))"
  shows "\<forall>i \<in> set (visited tns p). 0 \<le> i \<and> i < int (length (frames (animations p ! k)))"
  using assms
proof (induction tns arbitrary: p)
  case Nil
  then show ?case by simp
next
  case (Cons tn tns)
  obtain t now where tn: "tn = (t, now)" by (cases tn)
  from tick_in_bounds[OF Cons.prems, of t now]
  obtain q where q: "tick (t, now) p = Inr q" "animations q = animations p"
    "0 \<le> currentFrameIdx q" "currentFrameIdx q < int (length (frames (animations p ! k)))"
    "requested q \<longrightarrow> playing k q \<and> (direction q = 1 \<or> direction q = - 1)"
    by blast
  show ?case
  proof (cases "requested q")
    case True
    then have "\<forall>i \<in> set (visited tns q). 0 \<le> i \<and> i < int (length (frames (animations q ! k)))"
      using Cons.IH[of q] q(2,5) Cons.prems(3) by simp
    then show ?thesis using q tn by simp
  next
    case False
    then have "visited tns q = replicate (length tns) (currentFrameIdx q)"
      using ticks_not_requested by blast
    then show ?thesis using q tn by simp
  qed
qed

text \<open>
  Claim C9. For an animation of at least two frames and every loop strategy, one
  call of \<open>animate\<close> on a closure whose \<open>frameIdx\<close> is a position of the animation (in
  agreement with \<open>currentFrameIdx\<close>, direction 1 or -1) returns normally and leaves
  \<open>currentFrameIdx\<close>, the index the preview draws, a position of the animation; while a
  request is outstanding the closure satisfies the same conditions again. Hence,
  when this animation is the one being played, every index seen in the course of any
  sequence of callbacks is a position of the animation.
\<close>

theorem animate_keeps_index_in_bounds:
  assumes "2 \<le> length (frames anim)"
    and "0 \<le> frameIdx p" and "frameIdx p < int (length (frames anim))"
    and "currentFrameIdx p = frameIdx p"
    and "direction p = 1 \<or> direction p = - 1"
  shows "(\<exists>p'. animate anim t p = Inr p' \<and>
            0 \<le> currentFrameIdx p' \<and> currentFrameIdx p' < int (length (frames anim)) \<and>
            (requested p' \<longrightarrow>
               frameIdx p' = currentFrameIdx p' \<and> (direction p' = 1 \<or> direction p' = - 1))) \<and>
         (playing k p \<and> animations p ! k = anim \<longrightarrow>
            (\<forall>i \<in> set (visited tns p). 0 \<le> i \<and> i < int (length (frames anim))))"
proof (intro conjI impI)
  show "\<exists>p'. animate anim t p = Inr p' \<and>
            0 \<le> currentFrameIdx p' \<and> currentFrameIdx p' < int (length (frames anim)) \<and>
            (requested p' \<longrightarrow>
               frameIdx p' = currentFrameIdx p' \<and> (direction p' = 1 \<or> direction p' = - 1))"
    using assms by (rule animate_in_bounds)
next
  assume k: "playing k p \<and> animations p ! k = anim"
  then have "2 \<le> length (frames (animations p ! k))" using assms(1) by simp
  with k assms(5)
  have "\<forall>i \<in> set (visited tns p). 0 \<le> i \<and> i < int (length (frames (animations p ! k)))"
    by (intro visited_in_bounds) simp_all
  then show "\<forall>i \<in> set (visited tns p). 0 \<le> i \<and> i < int (length (frames anim))"
    using k by simp
qed

theorem animate_keeps_index_in_bounds_example:
  "2 \<le> length threeFrames \<and>
   playing 0 (play 0 (previewApp PingPong threeFrames 2)) \<and>
   (\<exists>p'. animate \<lparr> name = ''Animation1'', frames = threeFrames, loopStrategy = PingPong \<rparr> 150
            (play 0 (previewApp PingPong threeFrames 2)) = Inr p' \<and>
          currentFrameIdx p' = 1 \<and> direction p' = - 1) \<and>
   list_all (\<lambda>i. 0 \<le> i \<and> i < 3)
     (visited [(150, 151), (301, 302), (452, 453)] (play 0 (previewApp PingPong threeFrames 2)))"
proof -
  let ?anim = "\<lparr> name = ''Animation1'', frames = threeFrames, loopStrategy = PingPong \<rparr>"
  let ?p = "play 0 (previewApp PingPong threeFrames 2)"
  have h: "2 \<le> length (frames ?anim)" "0 \<le> frameIdx ?p" "frameIdx ?p < int (length (frames ?anim))"
    "currentFrameIdx ?p = frameIdx ?p" "direction ?p = 1 \<or> direction ?p = - 1"
    by (simp_all add: player_defs)
  have k: "playing 0 ?p" "animations ?p ! 0 = ?anim" "int (length (frames ?anim)) = 3"
    by (simp_all add: player_defs playing_def)
  from animate_keeps_index_in_bounds[OF h, of 150 0 "[(150, 151), (301, 302), (452, 453)]"] k
  obtain p' where p': "animate ?anim 150 ?p = Inr p'"
    and v: "\<forall>i \<in> set (visited [(150, 151), (301, 302), (452, 453)] ?p). 0 \<le> i \<and> i < 3"
    by (auto simp del: visited.simps)
  have "animate ?anim 150 ?p = Inr (?p\<lparr>lastTime := 150, frameIdx := 1, direction := - 1,
                        currentFrameIdx := 1, requested := True\<rparr>)"
    by (simp add: animate_def Let_def player_defs)
  with p' have "currentFrameIdx p' = 1 \<and> direction p' = - 1" by auto
  with p' v h(1) k(1) show ?thesis by (auto simp del: visited.simps simp: list_all_iff)
qed

lemma tick_Freeze_fires:
  assumes "playing k p" and "fires k t p" and "loopStrategy (animations p ! k) = Freeze"
  shows "\<exists>p'. tick (t, now) p = Inr p' \<and> playing k p' \<and> animations p' = animations p \<and>
           currentFrameIdx p' = min (frameIdx p + 1) (int (length (frames (animations p ! k))) - 1)"
proof -
  let ?n = "int (length (frames (animations p ! k)))"
  let ?m = "min (frameIdx p + 1) (?n - 1)"
  let ?q = "p\<lparr>lastTime := t, frameIdx := ?m, currentFrameIdx := ?m, requested := True\<rparr>"
  have a: "animate (animations p ! k) t p = Inr ?q"
    using assms by (intro animate_Freeze) (simp_all add: playing_def fires_def)
  have m: "0 \<le> ?m" "?m < ?n" using assms(1) by (auto simp: playing_def)
  show ?thesis
  proof (cases "?m = currentFrameIdx p")
    case True
    then have "tick (t, now) p = Inr ?q" using a assms(1) by (simp add: tick_playing)
    moreover have "playing k ?q" using assms(1) m by (simp add: playing_def)
    ultimately show ?thesis by simp
  next
    case False
    have "rerender now ?q = ?q\<lparr>frameIdx := ?m, lastTime := now, direction := 1, requested := True\<rparr>"
      using assms(1) m by (subst rerender_playing[where k = k]) (simp_all add: playing_def)
    then have "tick (t, now) p =
        Inr (?q\<lparr>frameIdx := ?m, lastTime := now, direction := 1, requested := True\<rparr>)"
      using a assms(1) False by (simp add: tick_playing)
    moreover have "playing k (?q\<lparr>frameIdx := ?m, lastTime := now, direction := 1, requested := True\<rparr>)"
      using assms(1) m by (simp add: playing_def)
    ultimately show ?thesis by simp
  qed
qed

lemma tick_Freeze:
  assumes "playing k p" and "loopStrategy (animations p ! k) = Freeze"
  shows "\<exists>p'. tick (t, now) p = Inr p' \<and> playing k p' \<and> animations p' = animations p \<and>
     currentFrameIdx p' =
       (if fires k t p then min (frameIdx p + 1) (int (length (frames (animations p ! k))) - 1)
        else frameIdx p)"
proof (cases "fires k t p")
  case True
  then show ?thesis using tick_Freeze_fires[OF assms(1) True assms(2), of now] by simp
next
  case False
  then show ?thesis using tick_waits[OF assms(1) False, of now] assms(1) by (simp add: playing_def)
qed

lemma ticks_Freeze_last:
  assumes "playing k p" and "loopStrategy (animations p ! k) = Freeze"
    and "frameIdx p = int (length (frames (animations p ! k))) - 1"
  shows "\<exists>p'. ticks tns p = Inr p' \<and> playing k p' \<and> animations p' = animations p \<and>
            frameIdx p' = frameIdx p \<and>
            visited tns p = replicate (length tns) (frameIdx p)"
  using assms
proof (induction tns arbitrary: p)
  case Nil
  then show ?case by simp
next
  case (Cons tn tns)
  obtain t now where tn: "tn = (t, now)" by (cases tn)
  from tick_Freeze[OF Cons.prems(1,2), of t now] Cons.prems(3)
  obtain p1 where p1: "tick (t, now) p = Inr p1" "playing k p1" "animations p1 = animations p"
    "currentFrameIdx p1 = frameIdx p"
    by (auto simp: min_def split: if_splits)
  have f1: "frameIdx p1 = frameIdx p" using p1(2,4) by (simp add: playing_def)
  from Cons.IH[OF p1(2)] p1(3) f1 Cons.prems(2,3)
  obtain p' where "ticks tns p1 = Inr p'" "playing k p'" "animations p' = animations p1"
    "frameIdx p' = frameIdx p1" "visited tns p1 = replicate (length tns) (frameIdx p1)"
    by auto
  then show ?case using p1 f1 tn by simp
qed

text \<open>
  Claim C7. Under \<open>Freeze\<close>, a callback moves the index from \<open>i\<close> to
  \<open>min (i + 1) (length - 1)\<close> when it fires and leaves it alone otherwise, and playback
  stays on. Once the index is \<open>length - 1\<close> it stays there for every further sequence
  of callbacks, with \<open>isPlaying\<close> still true. For three frames the indices seen are
  0, 1, 2, 2, 2, ... (the example runs five callbacks from index 0).
\<close>

theorem Freeze_holds_last_frame:
  assumes "playing k p" and "loopStrategy (animations p ! k) = Freeze"
  shows "(\<exists>p'. tick (t, now) p = Inr p' \<and> playing k p' \<and>
            currentFrameIdx p' =
              (if fires k t p then min (frameIdx p + 1) (int (length (frames (animations p ! k))) - 1)
               else frameIdx p)) \<and>
         (frameIdx p = int (length (frames (animations p ! k))) - 1 \<longrightarrow>
            (\<exists>p'. ticks tns p = Inr p' \<and> playing k p' \<and>
                   currentFrameIdx p' = int (length (frames (animations p ! k))) - 1) \<and>
            visited tns p = replicate (length tns) (int (length (frames (animations p ! k))) - 1))"
proof (intro conjI impI)
  show "\<exists>p'. tick (t, now) p = Inr p' \<and> playing k p' \<and>
            currentFrameIdx p' =
              (if fires k t p then min (frameIdx p + 1) (int (length (frames (animations p ! k))) - 1)
               else frameIdx p)"
    using tick_Freeze[OF assms] by blast
next
  assume last: "frameIdx p = int (length (frames (animations p ! k))) - 1"
  from ticks_Freeze_last[OF assms last, of tns]
  obtain p' where p': "ticks tns p = Inr p'" "playing k p'" "frameIdx p' = frameIdx p"
    "visited tns p = replicate (length tns) (frameIdx p)" by blast
  show "\<exists>p'. ticks tns p = Inr p' \<and> playing k p' \<and>
                   currentFrameIdx p' = int (length (frames (animations p ! k))) - 1"
    using p' last by (auto simp: playing_def)
  show "visited tns p = replicate (length tns) (int (length (frames (animations p ! k))) - 1)"
    using p'(4) last by simp
qed

lemmas run_defs = tick_def animate_def rerender_def drawPreview_def Let_def

theorem Freeze_holds_last_frame_example:
  "playing 0 (play 0 (previewApp Freeze threeFrames 2)) \<and>
   loopStrategy (animations (play 0 (previewApp Freeze threeFrames 2)) ! 0) = Freeze \<and>
   frameIdx (play 0 (previewApp Freeze threeFrames 2)) = 2 \<and>
   visited [(150, 151), (301, 302), (452, 453)] (play 0 (previewApp Freeze threeFrames 2)) = [2, 2, 2] \<and>
   visited [(150, 151), (301, 302), (452, 453), (603, 604), (754, 755)]
     (play 0 (previewApp Freeze threeFrames 0)) = [1, 2, 2, 2, 2] \<and>
   (case ticks [(150, 151), (301, 302), (452, 453), (603, 604), (754, 755)]
           (play 0 (previewApp Freeze threeFrames 0)) of
      Inl e \<Rightarrow> False | Inr p' \<Rightarrow> isPlaying p' \<and> requested p')"
proof -
  let ?p = "play 0 (previewApp Freeze threeFrames 2)"
  have h: "playing 0 ?p" "loopStrategy (animations ?p ! 0) = Freeze"
    by (simp_all add: player_defs playing_def)
  have l: "frameIdx ?p = int (length (frames (animations ?p ! 0))) - 1" "frameIdx ?p = 2"
    by (simp_all add: player_defs)
  from Freeze_holds_last_frame[OF h, of _ _ "[(150, 151), (301, 302), (452, 453)]"] l(1)
  have "visited [(150, 151), (301, 302), (452, 453)] ?p =
      replicate (length [(150 :: real, 151 :: real), (301, 302), (452, 453)])
        (int (length (frames (animations ?p ! 0))) - 1)"
    by blast
  moreover have "int (length (frames (animations ?p ! 0))) - 1 = 2" by (simp add: player_defs)
  ultimately have v: "visited [(150, 151), (301, 302), (452, 453)] ?p = [2, 2, 2]"
    by (simp del: visited.simps)
  have w: "visited [(150, 151), (301, 302), (452, 453), (603, 604), (754, 755)]
     (play 0 (previewApp Freeze threeFrames 0)) = [1, 2, 2, 2, 2]"
    by (simp add: run_defs player_defs)
  have x: "(case ticks [(150, 151), (301, 302), (452, 453), (603, 604), (754, 755)]
           (play 0 (previewApp Freeze threeFrames 0)) of
      Inl e \<Rightarrow> False | Inr p' \<Rightarrow> isPlaying p' \<and> requested p')"
    by (simp add: run_defs player_defs)
  show ?thesis using h l(2) v w x by blast
qed


lemma tick_End_inner:
  assumes "playing k p" and "fires k t p" and "loopStrategy (animations p ! k) = End"
    and "frameIdx p + 1 < int (length (frames (animations p ! k)))"
  shows "\<exists>p'. tick (t, now) p = Inr p' \<and> playing k p' \<and> animations p' = animations p \<and>
           currentFrameIdx p' = frameIdx p + 1"
proof -
  let ?q = "p\<lparr>lastTime := t, frameIdx := frameIdx p + 1, currentFrameIdx := frameIdx p + 1,
              requested := True\<rparr>"
  let ?r = "?q\<lparr>frameIdx := frameIdx p + 1, lastTime := now, direction := 1, requested := True\<rparr>"
  have a: "animate (animations p ! k) t p = Inr ?q"
    using assms by (intro animate_End_inner) (simp_all add: playing_def fires_def)
  have "rerender now ?q = ?r"
    using assms(1,4) by (subst rerender_playing[where k = k]) (simp_all add: playing_def)
  moreover have "isPlaying p" "currentFrameIdx p = frameIdx p"
    using assms(1) by (simp_all add: playing_def)
  ultimately have "tick (t, now) p = Inr ?r"
    using a assms(1) by (simp add: tick_playing)
  moreover have "playing k ?r" using assms(1,4) by (simp add: playing_def)
  ultimately show ?thesis by simp
qed

lemma tick_End_last:
  assumes "playing k p" and "fires k t p" and "loopStrategy (animations p ! k) = End"
    and "frameIdx p + 1 = int (length (frames (animations p ! k)))"
  shows "\<exists>p'. tick (t, now) p = Inr p' \<and> \<not> isPlaying p' \<and> \<not> requested p' \<and>
           currentFrameIdx p' = currentFrameIdx p"
proof -
  let ?q = "p\<lparr>lastTime := t, frameIdx := frameIdx p + 1, isPlaying := False, requested := False\<rparr>"
  have a: "animate (animations p ! k) t p = Inr ?q"
    using assms by (intro animate_End_last) (simp_all add: playing_def fires_def)
  have "previewEffect now ?q = ?q\<lparr>requested := False\<rparr>"
    by (intro previewEffect_paused) simp
  moreover have "isPlaying p" using assms(1) by (simp add: playing_def)
  ultimately have "tick (t, now) p = Inr (?q\<lparr>requested := False\<rparr>)"
    using a assms(1) by (simp add: tick_playing)
  then show ?thesis by simp
qed

text \<open>
  Claim C5. Under \<open>End\<close>, a callback that fires before the last frame moves to the
  next frame and playback goes on. A callback that fires at the last frame clears
  \<open>isPlaying\<close>, leaves \<open>currentFrameIdx\<close> at the last index and requests no further
  callback; from then on no sequence of callbacks changes the state. For three frames
  the indices seen are 0, 1, 2 and then the stopped state (the example runs five
  callbacks from index 0).
\<close>

theorem End_stops_after_last_frame:
  assumes "playing k p" and "loopStrategy (animations p ! k) = End" and "fires k t p"
  shows "\<exists>p'. tick (t, now) p = Inr p' \<and>
           (if frameIdx p + 1 < int (length (frames (animations p ! k)))
            then playing k p' \<and> currentFrameIdx p' = frameIdx p + 1
            else \<not> isPlaying p' \<and> \<not> requested p' \<and>
                 currentFrameIdx p' = int (length (frames (animations p ! k))) - 1 \<and>
                 (\<forall>tns. ticks tns p' = Inr p' \<and>
                        visited tns p' =
                          replicate (length tns) (int (length (frames (animations p ! k))) - 1)))"
proof (cases "frameIdx p + 1 < int (length (frames (animations p ! k)))")
  case True
  then show ?thesis using tick_End_inner[OF assms(1,3,2) True, of now] by auto
next
  case False
  then have last: "frameIdx p + 1 = int (length (frames (animations p ! k)))"
    using assms(1) by (simp add: playing_def)
  from tick_End_last[OF assms(1,3,2) last, of now]
  obtain p' where p': "tick (t, now) p = Inr p'" "\<not> isPlaying p'" "\<not> requested p'"
    "currentFrameIdx p' = currentFrameIdx p" by blast
  have c: "currentFrameIdx p' = int (length (frames (animations p ! k))) - 1"
    using p'(4) last assms(1) by (simp add: playing_def)
  have "ticks tns p' = Inr p' \<and>
        visited tns p' = replicate (length tns) (int (length (frames (animations p ! k))) - 1)" for tns
    using ticks_not_requested[OF p'(3), of tns] c by simp
  then show ?thesis using p'(1-3) c False by auto
qed

theorem End_stops_after_last_frame_example:
  "playing 0 (play 0 (previewApp End threeFrames 2)) \<and>
   loopStrategy (animations (play 0 (previewApp End threeFrames 2)) ! 0) = End \<and>
   fires 0 150 (play 0 (previewApp End threeFrames 2)) \<and>
   (case tick (150, 151) (play 0 (previewApp End threeFrames 2)) of
      Inl e \<Rightarrow> False
    | Inr p' \<Rightarrow> \<not> isPlaying p' \<and> \<not> requested p' \<and> currentFrameIdx p' = 2 \<and>
        ticks [(301, 302), (452, 453)] p' = Inr p') \<and>
   visited [(150, 151), (301, 302), (452, 453), (603, 604), (754, 755)]
     (play 0 (previewApp End threeFrames 0)) = [1, 2, 2, 2, 2] \<and>
   (case ticks [(150, 151), (301, 302), (452, 453), (603, 604), (754, 755)]
           (play 0 (previewApp End threeFrames 0)) of
      Inl e \<Rightarrow> False | Inr p' \<Rightarrow> \<not> isPlaying p' \<and> \<not> requested p' \<and> currentFrameIdx p' = 2)"
proof -
  let ?p = "play 0 (previewApp End threeFrames 2)"
  have h: "playing 0 ?p" "loopStrategy (animations ?p ! 0) = End" "fires 0 150 ?p"
    by (simp_all add: player_defs playing_def fires_def)
  have n: "\<not> frameIdx ?p + 1 < int (length (frames (animations ?p ! 0)))"
    "int (length (frames (animations ?p ! 0))) - 1 = 2"
    by (simp_all add: player_defs)
  from End_stops_after_last_frame[OF h, of 151] n
  obtain p' where p': "tick (150, 151) ?p = Inr p'" "\<not> isPlaying p'" "\<not> requested p'"
    "currentFrameIdx p' = 2" "\<forall>tns. ticks tns p' = Inr p'"
    by auto
  from p'(5) have "ticks [(301, 302), (452, 453)] p' = Inr p'" by blast
  with p' have a: "(case tick (150, 151) ?p of
      Inl e \<Rightarrow> False
    | Inr p' \<Rightarrow> \<not> isPlaying p' \<and> \<not> requested p' \<and> currentFrameIdx p' = 2 \<and>
        ticks [(301, 302), (452, 453)] p' = Inr p')"
    by (simp del: ticks.simps)
  have w: "visited [(150, 151), (301, 302), (452, 453), (603, 604), (754, 755)]
     (play 0 (previewApp End threeFrames 0)) = [1, 2, 2, 2, 2]"
    by (simp add: run_defs player_defs)
  have x: "(case ticks [(150, 151), (301, 302), (452, 453), (603, 604), (754, 755)]
           (play 0 (previewApp End threeFrames 0)) of
      Inl e \<Rightarrow> False | Inr p' \<Rightarrow> \<not> isPlaying p' \<and> \<not> requested p' \<and> currentFrameIdx p' = 2)"
    by (simp add: run_defs player_defs)
  show ?thesis using h a w x by blast
qed

text \<open>
  Claim C2, at the input where the code departs from it. For \<open>PingPong\<close> and an
  animation of exactly one frame, the callback that fires at index 0 computes
  \<open>frameIdx = 1\<close>, finds it past the end and sets \<open>frameIdx = frames.length - 2 = -1\<close>,
  which it passes to \<open>setCurrentFrameIdx\<close>: the index goes below 0 instead of staying
  at 0. (\<open>PingPong_bounce\<close> above is the part of the claim that holds: the direction
  flips to -1 and the index becomes \<open>frames.length - 2\<close>.)
\<close>

theorem PingPong_single_frame_underflows:
  "animate \<lparr> name = ''Animation1'', frames = oneFrame, loopStrategy = PingPong \<rparr> 150
     (play 0 (previewApp PingPong oneFrame 0)) =
   Inr ((play 0 (previewApp PingPong oneFrame 0))\<lparr>lastTime := 150, frameIdx := - 1,
          direction := - 1, currentFrameIdx := - 1, requested := True\<rparr>)"
  by (simp add: animate_def Let_def play_def previewEffect_def previewApp_def oneFrame_def
      loadedApp_def initialApp_def)

text \<open>
  With an image loaded, the draw effect finds no frame at index -1 and resets
  \<open>currentFrameIdx\<close> to 0, so the state after the whole callback shows index 0 again.
\<close>

lemma PingPong_single_frame_reset:
  "tick (150, 151) (play 0 (previewApp PingPong oneFrame 0)) =
   Inr ((play 0 (previewApp PingPong oneFrame 0))\<lparr>lastTime := 151, frameIdx := 0,
          direction := 1, currentFrameIdx := 0, requested := True\<rparr>)"
  by (simp add: run_defs play_def previewEffect_def previewApp_def oneFrame_def
      loadedApp_def initialApp_def)

text \<open>
  Claim C6 fails as stated: nothing clamps a duration. A frame added while the default
  duration is 0 is stored with duration 0, and a callback whose time stamp equals
  \<open>lastTime\<close> (no time elapsed) already advances the animation.
\<close>

theorem zero_duration_advances_without_delay:
  "addFrameToAnimation 0 1
     ((previewApp Loop [\<lparr> frameIndex = 0, duration = 0 \<rparr>] 0)\<lparr>defaultDuration := 0\<rparr>) =
     Inr ((previewApp Loop zeroFrames 0)\<lparr>defaultDuration := 0\<rparr>) \<and>
   lastTime (play 0 (previewApp Loop zeroFrames 0)) = 0 \<and>
   animate \<lparr> name = ''Animation1'', frames = zeroFrames, loopStrategy = Loop \<rparr> 0
     (play 0 (previewApp Loop zeroFrames 0)) =
   Inr ((play 0 (previewApp Loop zeroFrames 0))\<lparr>lastTime := 0, frameIdx := 1,
          currentFrameIdx := 1, requested := True\<rparr>)"
  by (simp add: addFrameToAnimation_def animate_def Let_def play_def previewEffect_def
      previewApp_def zeroFrames_def loadedApp_def initialApp_def)

text \<open>
  Under \<open>Loop\<close>, a callback that fires moves the index to the next position modulo
  the length, whether or not the effects restart the closure; so with durations that
  are all zero or negative the indices seen in a sequence of callbacks in the order of
  time are the successive positions.
\<close>

lemma ascending_earlier: "l' \<le> l \<Longrightarrow> ascending l tns \<Longrightarrow> ascending l' tns"
  by (cases tns) auto

lemma tick_Loop_fires:
  assumes "playing k p" and "fires k t p" and "loopStrategy (animations p ! k) = Loop"
  shows "\<exists>p'. tick (t, now) p = Inr p' \<and> playing k p' \<and> animations p' = animations p \<and>
           currentFrameIdx p' = (frameIdx p + 1) mod int (length (frames (animations p ! k))) \<and>
           (lastTime p' = t \<or> lastTime p' = now)"
proof -
  let ?n = "int (length (frames (animations p ! k)))"
  let ?m = "(frameIdx p + 1) mod ?n"
  let ?q = "p\<lparr>lastTime := t, frameIdx := ?m, currentFrameIdx := ?m, requested := True\<rparr>"
  have a: "animate (animations p ! k) t p = Inr ?q"
    using assms by (intro animate_Loop) (simp_all add: playing_def fires_def)
  have "0 < ?n" using assms(1) by (auto simp: playing_def)
  then have m: "0 \<le> ?m" "?m < ?n" by simp_all
  show ?thesis
  proof (cases "?m = currentFrameIdx p")
    case True
    then have "tick (t, now) p = Inr ?q" using a assms(1) by (simp add: tick_playing)
    moreover have "playing k ?q" using assms(1) m by (simp add: playing_def)
    ultimately show ?thesis by simp
  next
    case False
    let ?r = "?q\<lparr>frameIdx := ?m, lastTime := now, direction := 1, requested := True\<rparr>"
    have "rerender now ?q = ?r"
      using assms(1) m by (subst rerender_playing[where k = k]) (simp_all add: playing_def)
    then have "tick (t, now) p = Inr ?r"
      using a assms(1) False by (simp add: tick_playing)
    moreover have "playing k ?r" using assms(1) m by (simp add: playing_def)
    ultimately show ?thesis by simp
  qed
qed

lemma visited_Loop:
  assumes "playing k p" and "loopStrategy (animations p ! k) = Loop"
    and "\<forall>f \<in> set (frames (animations p ! k)). duration f \<le> 0"
    and "ascending (lastTime p) tns"
  shows "visited tns p =
           map (\<lambda>j. (frameIdx p + int j) mod int (length (frames (animations p ! k))))
             [1..<Suc (length tns)]"
  using assms
proof (induction tns arbitrary: p)
  case Nil
  then show ?case by simp
next
  case (Cons tn tns)
  let ?n = "int (length (frames (animations p ! k)))"
  obtain t now where tn: "tn = (t, now)" by (cases tn)
  have asc: "lastTime p \<le> t" "t \<le> now" "ascending now tns"
    using Cons.prems(4) tn by simp_all
  have "nat (frameIdx p) < length (frames (animations p ! k))"
    using Cons.prems(1) by (auto simp: playing_def)
  then have "frames (animations p ! k) ! nat (frameIdx p) \<in> set (frames (animations p ! k))"
    by (rule nth_mem)
  then have "duration (frames (animations p ! k) ! nat (frameIdx p)) \<le> 0"
    using Cons.prems(3) by blast
  then have "real_of_int (duration (frames (animations p ! k) ! nat (frameIdx p))) \<le> 0"
    by simp
  then have f: "fires k t p" using asc(1) by (simp add: fires_def)
  from tick_Loop_fires[OF Cons.prems(1) f Cons.prems(2), of now]
  obtain p' where p': "tick (t, now) p = Inr p'" "playing k p'" "animations p' = animations p"
    "currentFrameIdx p' = (frameIdx p + 1) mod ?n" "lastTime p' = t \<or> lastTime p' = now"
    by blast
  have fi: "frameIdx p' = (frameIdx p + 1) mod ?n" using p'(2,4) by (simp add: playing_def)
  have "lastTime p' \<le> now" using p'(5) asc(2) by auto
  then have "ascending (lastTime p') tns" using asc(3) by (rule ascending_earlier)
  with Cons.IH[OF p'(2)] Cons.prems(2,3) p'(3)
  have "visited tns p' = map (\<lambda>j. (frameIdx p' + int j) mod ?n) [1..<Suc (length tns)]"
    by simp
  also have "\<dots> = map (\<lambda>j. (frameIdx p + int (Suc j)) mod ?n) [1..<Suc (length tns)]"
  proof -
    have "((frameIdx p + 1) mod ?n + int j) mod ?n = (frameIdx p + int (Suc j)) mod ?n" for j
    proof -
      have "((frameIdx p + 1) mod ?n + int j) mod ?n = (frameIdx p + 1 + int j) mod ?n"
        by (rule mod_add_left_eq)
      also have "frameIdx p + 1 + int j = frameIdx p + int (Suc j)" by simp
      finally show ?thesis .
    qed
    then show ?thesis unfolding fi by simp
  qed
  also have "\<dots> = map (\<lambda>j. (frameIdx p + int j) mod ?n) (map Suc [1..<Suc (length tns)])"
    by (simp add: comp_def)
  also have "map Suc [1..<Suc (length tns)] = [Suc 1..<Suc (Suc (length tns))]"
    by (simp only: map_Suc_upt)
  finally have rest:
    "visited tns p' = map (\<lambda>j. (frameIdx p + int j) mod ?n) [Suc 1..<Suc (Suc (length tns))]" .
  have "[1..<Suc (Suc (length tns))] = 1 # [Suc 1..<Suc (Suc (length tns))]"
    by (rule upt_conv_Cons) simp
  then have "map (\<lambda>j. (frameIdx p + int j) mod ?n) [1..<Suc (length (tn # tns))] =
      (frameIdx p + 1) mod ?n # map (\<lambda>j. (frameIdx p + int j) mod ?n) [Suc 1..<Suc (Suc (length tns))]"
    by simp
  moreover have "visited (tn # tns) p = currentFrameIdx p' # visited tns p'"
    using p'(1) tn by simp
  ultimately show ?case using p'(4) rest by (simp only:)
qed

text \<open>
  Claim C6, as the code has it. Nothing clamps a duration: \<open>animate\<close> compares the
  elapsed time with the stored duration itself. So for a frame whose duration is zero
  or negative, every callback whose time stamp is not before \<open>lastTime\<close>, also one with
  no time elapsed, performs exactly one transition of the loop strategy and, unless
  \<open>End\<close> stops the playback at the last frame, requests the next callback: the result
  of the call is given for each of the four strategies. One call never makes a second
  transition. Under \<open>Loop\<close>, with such durations throughout, the \<open>j\<close>-th of a sequence
  of callbacks shows the index \<open>j\<close> positions further, modulo the length. And
  \<open>addFrameToAnimation\<close> stores \<open>defaultDuration\<close> unchanged.
\<close>

theorem nonpositive_duration_is_not_clamped:
  assumes "0 \<le> frameIdx p" and "frameIdx p < int (length (frames anim))"
    and "duration (frames anim ! nat (frameIdx p)) \<le> 0"
    and "lastTime p \<le> t"
  shows
    "animate anim t p =
       (case loopStrategy anim of
          Loop \<Rightarrow>
            Inr (p\<lparr>lastTime := t, frameIdx := (frameIdx p + 1) mod int (length (frames anim)),
                   currentFrameIdx := (frameIdx p + 1) mod int (length (frames anim)),
                   requested := True\<rparr>)
        | Freeze \<Rightarrow>
            Inr (p\<lparr>lastTime := t, frameIdx := min (frameIdx p + 1) (int (length (frames anim)) - 1),
                   currentFrameIdx := min (frameIdx p + 1) (int (length (frames anim)) - 1),
                   requested := True\<rparr>)
        | End \<Rightarrow>
            (if frameIdx p + 1 < int (length (frames anim))
             then Inr (p\<lparr>lastTime := t, frameIdx := frameIdx p + 1,
                         currentFrameIdx := frameIdx p + 1, requested := True\<rparr>)
             else Inr (p\<lparr>lastTime := t, frameIdx := frameIdx p + 1, isPlaying := False,
                         requested := False\<rparr>))
        | PingPong \<Rightarrow>
            (if int (length (frames anim)) \<le> frameIdx p + direction p
             then Inr (p\<lparr>lastTime := t, frameIdx := int (length (frames anim)) - 2,
                         direction := - 1, currentFrameIdx := int (length (frames anim)) - 2,
                         requested := True\<rparr>)
             else if frameIdx p + direction p < 0
             then Inr (p\<lparr>lastTime := t, frameIdx := 1, direction := 1, currentFrameIdx := 1,
                         requested := True\<rparr>)
             else Inr (p\<lparr>lastTime := t, frameIdx := frameIdx p + direction p,
                         currentFrameIdx := frameIdx p + direction p, requested := True\<rparr>))) \<and>
     (playing k p \<and> animations p ! k = anim \<and> loopStrategy anim = Loop \<and>
      (\<forall>f \<in> set (frames anim). duration f \<le> 0) \<and> ascending (lastTime p) tns \<longrightarrow>
        visited tns p =
          map (\<lambda>j. (frameIdx p + int j) mod int (length (frames anim))) [1..<Suc (length tns)]) \<and>
     (a < length (animations s) \<longrightarrow>
        (\<exists>s'. addFrameToAnimation a fi s = Inr s' \<and>
               frames (animations s' ! a) =
                 frames (animations s ! a) @ [\<lparr> frameIndex = fi, duration = defaultDuration s \<rparr>]))"
proof (intro conjI impI)
  have "real_of_int (duration (frames anim ! nat (frameIdx p))) \<le> 0"
    using assms(3) by simp
  then have fire: "real_of_int (duration (frames anim ! nat (frameIdx p))) \<le> t - lastTime p"
    using assms(4) by linarith
  show "animate anim t p =
       (case loopStrategy anim of
          Loop \<Rightarrow>
            Inr (p\<lparr>lastTime := t, frameIdx := (frameIdx p + 1) mod int (length (frames anim)),
                   currentFrameIdx := (frameIdx p + 1) mod int (length (frames anim)),
                   requested := True\<rparr>)
        | Freeze \<Rightarrow>
            Inr (p\<lparr>lastTime := t, frameIdx := min (frameIdx p + 1) (int (length (frames anim)) - 1),
                   currentFrameIdx := min (frameIdx p + 1) (int (length (frames anim)) - 1),
                   requested := True\<rparr>)
        | End \<Rightarrow>
            (if frameIdx p + 1 < int (length (frames anim))
             then Inr (p\<lparr>lastTime := t, frameIdx := frameIdx p + 1,
                         currentFrameIdx := frameIdx p + 1, requested := True\<rparr>)
             else Inr (p\<lparr>lastTime := t, frameIdx := frameIdx p + 1, isPlaying := False,
                         requested := False\<rparr>))
        | PingPong \<Rightarrow>
            (if int (length (frames anim)) \<le> frameIdx p + direction p
             then Inr (p\<lparr>lastTime := t, frameIdx := int (length (frames anim)) - 2,
                         direction := - 1, currentFrameIdx := int (length (frames anim)) - 2,
                         requested := True\<rparr>)
             else if frameIdx p + direction p < 0
             then Inr (p\<lparr>lastTime := t, frameIdx := 1, direction := 1, currentFrameIdx := 1,
                         requested := True\<rparr>)
             else Inr (p\<lparr>lastTime := t, frameIdx := frameIdx p + direction p,
                         currentFrameIdx := frameIdx p + direction p, requested := True\<rparr>)))"
  proof (cases "loopStrategy anim")
    case Freeze
    then show ?thesis using assms(1,2) fire by (simp add: animate_Freeze)
  next
    case End
    show ?thesis
    proof (cases "frameIdx p + 1 < int (length (frames anim))")
      case True
      then show ?thesis using assms(1) fire End by (simp add: animate_End_inner)
    next
      case False
      then have "frameIdx p + 1 = int (length (frames anim))" using assms(2) by simp
      then show ?thesis using assms(1) fire End by (simp add: animate_End_last)
    qed
  next
    case Loop
    then show ?thesis using assms(1,2) fire by (simp add: animate_Loop)
  next
    case PingPong
    then show ?thesis using assms(1,2) fire by (simp add: animate_PingPong)
  qed
next
  assume h: "playing k p \<and> animations p ! k = anim \<and> loopStrategy anim = Loop \<and>
      (\<forall>f \<in> set (frames anim). duration f \<le> 0) \<and> ascending (lastTime p) tns"
  then have "visited tns p =
          map (\<lambda>j. (frameIdx p + int j) mod int (length (frames (animations p ! k))))
            [1..<Suc (length tns)]"
    by (intro visited_Loop) simp_all
  then show "visited tns p =
          map (\<lambda>j. (frameIdx p + int j) mod int (length (frames anim))) [1..<Suc (length tns)]"
    using h by simp
next
  assume "a < length (animations s)"
  then show "\<exists>s'. addFrameToAnimation a fi s = Inr s' \<and>
               frames (animations s' ! a) =
                 frames (animations s ! a) @ [\<lparr> frameIndex = fi, duration = defaultDuration s \<rparr>]"
    by (simp add: addFrameToAnimation_def Let_def)
qed

theorem nonpositive_duration_is_not_clamped_example:
  "duration (zeroFrames ! 0) \<le> 0 \<and>
   lastTime (play 0 (previewApp Loop zeroFrames 0)) = 0 \<and>
   animate \<lparr> name = ''Animation1'', frames = zeroFrames, loopStrategy = Loop \<rparr> 0
     (play 0 (previewApp Loop zeroFrames 0)) =
     Inr ((play 0 (previewApp Loop zeroFrames 0))\<lparr>lastTime := 0, frameIdx := 1,
            currentFrameIdx := 1, requested := True\<rparr>) \<and>
   visited [(0, 0), (0, 0), (1, 1)] (play 0 (previewApp Loop zeroFrames 0)) = [1, 0, 1] \<and>
   (\<exists>s'. addFrameToAnimation 0 7 ((previewApp Loop zeroFrames 0)\<lparr>defaultDuration := - 5\<rparr>) = Inr s' \<and>
          frames (animations s' ! 0) = zeroFrames @ [\<lparr> frameIndex = 7, duration = - 5 \<rparr>])"
proof -
  let ?anim = "\<lparr> name = ''Animation1'', frames = zeroFrames, loopStrategy = Loop \<rparr>"
  let ?p = "play 0 (previewApp Loop zeroFrames 0)"
  let ?s = "(previewApp Loop zeroFrames 0)\<lparr>defaultDuration := - 5\<rparr>"
  let ?tns = "[(0, 0), (0, 0), (1, 1)] :: (real \<times> real) list"
  have h: "0 \<le> frameIdx ?p" "frameIdx ?p < int (length (frames ?anim))"
    "duration (frames ?anim ! nat (frameIdx ?p)) \<le> 0" "lastTime ?p \<le> 0"
    by (simp_all add: play_def previewEffect_def previewApp_def zeroFrames_def loadedApp_def
        initialApp_def)
  have e: "loopStrategy ?anim = Loop" "frameIdx ?p = 0" "int (length (frames ?anim)) = 2"
    "(0 :: nat) < length (animations ?s)" "frames (animations ?s ! 0) = zeroFrames"
    "defaultDuration ?s = - 5" "duration (zeroFrames ! 0) \<le> 0" "lastTime ?p = 0"
    by (simp_all add: play_def previewEffect_def previewApp_def zeroFrames_def loadedApp_def
        initialApp_def)
  have m: "playing 0 ?p" "animations ?p ! 0 = ?anim" "\<forall>f \<in> set (frames ?anim). duration f \<le> 0"
    "ascending (lastTime ?p) ?tns"
    by (simp_all add: play_def previewEffect_def previewApp_def zeroFrames_def loadedApp_def
        initialApp_def playing_def)
  note inst = nonpositive_duration_is_not_clamped[OF h, of 0 ?tns 0 ?s 7]
  from inst e(1,2,3) have a: "animate ?anim 0 ?p =
     Inr (?p\<lparr>lastTime := 0, frameIdx := 1, currentFrameIdx := 1, requested := True\<rparr>)"
    by simp
  from inst m e(1) have "visited ?tns ?p =
      map (\<lambda>j. (frameIdx ?p + int j) mod int (length (frames ?anim))) [1..<Suc (length ?tns)]"
    by blast
  then have v: "visited ?tns ?p = [1, 0, 1]"
    by (simp only: e(2,3)) (simp del: visited.simps)
  from inst e(4,5,6) have s: "\<exists>s'. addFrameToAnimation 0 7 ?s = Inr s' \<and>
          frames (animations s' ! 0) = zeroFrames @ [\<lparr> frameIndex = 7, duration = - 5 \<rparr>]"
    by auto
  show ?thesis using e(7,8) a v s by blast
qed

section \<open>Properties of the code generation\<close>

lemma adjacent_append:
  "adjacent a b (xs @ ys) \<longleftrightarrow>
     adjacent a b xs \<or> adjacent a b ys \<or> (xs \<noteq> [] \<and> ys \<noteq> [] \<and> last xs = a \<and> hd ys = b)"
proof (induction a b xs rule: adjacent.induct)
  case (1 a b)
  then show ?case by simp
next
  case (2 a b x)
  then show ?case by (cases ys) auto
next
  case (3 a b x y zs)
  then show ?case by auto
qed

lemma sublist_adjacent:
  assumes "sublist xs ys" and "adjacent a b xs"
  shows "adjacent a b ys"
proof -
  from assms(1) obtain ps ss where "ys = ps @ xs @ ss" by (auto simp: sublist_def)
  then show ?thesis using assms(2) by (simp add: adjacent_append)
qed

lemma adjacent_in_set: "adjacent a b xs \<Longrightarrow> a \<in> set xs \<and> b \<in> set xs"
  by (induction a b xs rule: adjacent.induct) auto

lemma digit_char: "d < 10 \<Longrightarrow> digit d \<in> set ''0123456789''"
  unfolding digit_def by (rule nth_mem) simp

lemma showNat_chars: "set (showNat n) \<subseteq> set ''0123456789'' \<and> showNat n \<noteq> []"
proof (induction n rule: showNat.induct)
  case (1 n)
  show ?case
  proof (cases "n < 10")
    case True
    then have "showNat n = [digit n]" by (simp add: showNat.simps[of n])
    then show ?thesis using digit_char[OF True] by simp
  next
    case False
    then have "showNat n = showNat (n div 10) @ [digit (n mod 10)]"
      by (simp add: showNat.simps[of n])
    moreover have "digit (n mod 10) \<in> set ''0123456789''" by (rule digit_char) simp
    ultimately show ?thesis using 1[OF False] by simp
  qed
qed

lemma showInt_chars: "set (showInt n) \<subseteq> set ''-0123456789'' \<and> showInt n \<noteq> []"
proof -
  have sub: "set ''0123456789'' \<subseteq> set ''-0123456789''" by (simp add: subset_insertI2)
  have m: "CHR ''-'' \<in> set ''-0123456789''" by simp
  show ?thesis
  proof (cases "n < 0")
    case True
    then have "showInt n = CHR ''-'' # showNat (nat (- n))" by (simp add: showInt_def)
    moreover have "set (showNat (nat (- n))) \<subseteq> set ''-0123456789''"
      using showNat_chars[of "nat (- n)"] sub by (meson subset_trans)
    ultimately show ?thesis using m by (simp only: list.set insert_subset list.distinct) simp
  next
    case False
    then have "showInt n = showNat (nat n)" by (simp add: showInt_def)
    moreover have "set (showNat (nat n)) \<subseteq> set ''-0123456789''"
      using showNat_chars[of "nat n"] sub by (meson subset_trans)
    ultimately show ?thesis using showNat_chars[of "nat n"] by (simp only:) simp
  qed
qed

lemma showInt_letters:
  assumes "c \<notin> set ''-0123456789''"
  shows "c \<notin> set (showInt n)" and "hd (showInt n) \<noteq> c" and "last (showInt n) \<noteq> c"
    and "\<not> adjacent c d (showInt n)" and "\<not> adjacent d c (showInt n)"
proof -
  have "set (showInt n) \<subseteq> set ''-0123456789''" using showInt_chars by (rule conjunct1)
  then show c: "c \<notin> set (showInt n)" using assms by (meson subsetD)
  have ne: "showInt n \<noteq> []" using showInt_chars by (rule conjunct2)
  have "hd (showInt n) \<in> set (showInt n)" using ne by (rule hd_in_set)
  then show "hd (showInt n) \<noteq> c" using c by metis
  have "last (showInt n) \<in> set (showInt n)" using ne by (rule last_in_set)
  then show "last (showInt n) \<noteq> c" using c by metis
  show "\<not> adjacent c d (showInt n)" using c adjacent_in_set[of c d "showInt n"] by metis
  show "\<not> adjacent d c (showInt n)" using c adjacent_in_set[of d c "showInt n"] by metis
qed


text \<open>
  A pair of adjacent letters that does not occur in the fixed text of the grid
  descriptor does not occur in the grid section without spacing block either, since
  the numbers in between consist of digits and a minus sign.
\<close>

lemma gridCode_plain:
  assumes "\<not> hasSpacing g" and "c \<notin> set ''-0123456789''" and "d \<notin> set ''-0123456789''"
    and "\<not> adjacent c d
           (''// Create spritesheet using grid-based parsing\<newline>''
            @ ''const spriteSheet = SpriteSheet.fromImageSource({\<newline>''
            @ ''  image: imageSource,\<newline>''
            @ ''  grid: {\<newline>''
            @ ''    rows: '' @ '',\<newline>    columns: '' @ '',\<newline>    spriteWidth: ''
            @ '',\<newline>    spriteHeight: '' @ ''\<newline>  }\<newline>});\<newline>\<newline>'')"
  shows "\<not> adjacent c d (gridCode g)"
proof -
  define L0 where "L0 =
     ''// Create spritesheet using grid-based parsing\<newline>''
     @ ''const spriteSheet = SpriteSheet.fromImageSource({\<newline>''
     @ ''  image: imageSource,\<newline>''
     @ ''  grid: {\<newline>''
     @ ''    rows: ''"
  define L1 where "L1 = '',\<newline>    columns: ''"
  define L2 where "L2 = '',\<newline>    spriteWidth: ''"
  define L3 where "L3 = '',\<newline>    spriteHeight: ''"
  define L4 where "L4 = ''\<newline>  }\<newline>});\<newline>\<newline>''"
  have g: "gridCode g = L0 @ showInt (rows g) @ L1 @ showInt (columns g) @ L2
             @ showInt (spriteWidth g) @ L3 @ showInt (spriteHeight g) @ L4"
    using assms(1) by (simp add: gridCode_def Let_def L0_def L1_def L2_def L3_def L4_def)
  have whole: "\<not> adjacent c d (L0 @ L1 @ L2 @ L3 @ L4)"
    using assms(4) by (simp add: L0_def L1_def L2_def L3_def L4_def)
  have ne: "L0 \<noteq> []" "L1 \<noteq> []" "L2 \<noteq> []" "L3 \<noteq> []" "L4 \<noteq> []"
    by (simp_all add: L0_def L1_def L2_def L3_def L4_def)
  have inner: "\<not> adjacent c d L0" "\<not> adjacent c d L1" "\<not> adjacent c d L2" "\<not> adjacent c d L3"
    "\<not> adjacent c d L4"
    using whole by (simp_all add: adjacent_append)
  have num: "\<not> adjacent c d (showInt n)" "showInt n \<noteq> []"
    "hd (showInt n) \<noteq> d" "last (showInt n) \<noteq> c" for n
    using showInt_letters[OF assms(2)] showInt_letters[OF assms(3)] showInt_chars by blast+
  show ?thesis
    unfolding g using inner num ne by (simp add: adjacent_append)
qed


text \<open>With a non-zero value the three lines of the spacing block occur in the grid section.\<close>

lemma gridCode_spaced:
  assumes "hasSpacing g"
  shows "sublist '',\<newline>  spacing: {\<newline>'' (gridCode g)"
    and "sublist (''    originOffset: { x: '' @ showInt (vx (originOffset g))
                  @ '', y: '' @ showInt (vy (originOffset g)) @ '' },\<newline>'') (gridCode g)"
    and "sublist (''    margin: { x: '' @ showInt (vx (margin g))
                  @ '', y: '' @ showInt (vy (margin g)) @ '' }\<newline>'') (gridCode g)"
proof -
  define A where "A =
     ''// Create spritesheet using grid-based parsing\<newline>''
     @ ''const spriteSheet = SpriteSheet.fromImageSource({\<newline>''
     @ ''  image: imageSource,\<newline>''
     @ ''  grid: {\<newline>''
     @ ''    rows: '' @ showInt (rows g) @ '',\<newline>''
     @ ''    columns: '' @ showInt (columns g) @ '',\<newline>''
     @ ''    spriteWidth: '' @ showInt (spriteWidth g) @ '',\<newline>''
     @ ''    spriteHeight: '' @ showInt (spriteHeight g) @ ''\<newline>''
     @ ''  }''"
  define K where "K = '',\<newline>  spacing: {\<newline>''"
  define P where "P = ''    originOffset: { x: '' @ showInt (vx (originOffset g))
                  @ '', y: '' @ showInt (vy (originOffset g)) @ '' },\<newline>''"
  define M where "M = ''    margin: { x: '' @ showInt (vx (margin g))
                  @ '', y: '' @ showInt (vy (margin g)) @ '' }\<newline>''"
  define Z where "Z = ''  }\<newline>});\<newline>\<newline>''"
  have g: "gridCode g = A @ K @ P @ M @ Z"
    using assms by (simp add: gridCode_def Let_def A_def K_def P_def M_def Z_def)
  have "sublist K (A @ K @ (P @ M @ Z))" by (rule sublist_appendI)
  then show "sublist '',\<newline>  spacing: {\<newline>'' (gridCode g)"
    by (simp only: g K_def append_assoc)
  have "sublist P ((A @ K) @ P @ (M @ Z))" by (rule sublist_appendI)
  then show "sublist (''    originOffset: { x: '' @ showInt (vx (originOffset g))
                  @ '', y: '' @ showInt (vy (originOffset g)) @ '' },\<newline>'') (gridCode g)"
    by (simp only: g P_def append_assoc)
  have "sublist M ((A @ K @ P) @ M @ Z)" by (rule sublist_appendI)
  then show "sublist (''    margin: { x: '' @ showInt (vx (margin g))
                  @ '', y: '' @ showInt (vy (margin g)) @ '' }\<newline>'') (gridCode g)"
    by (simp only: g M_def append_assoc)
qed

lemma not_sublistI:
  assumes "adjacent a b xs" and "\<not> adjacent a b ys"
  shows "\<not> sublist xs ys"
proof
  assume "sublist xs ys"
  then have "adjacent a b ys" using assms(1) by (rule sublist_adjacent)
  then show False using assms(2) by contradiction
qed

lemma gridCode_unspaced:
  assumes "\<not> hasSpacing g"
  shows "\<not> sublist ''spacing'' (gridCode g)"
    and "\<not> sublist ''originOffset'' (gridCode g)"
    and "\<not> sublist ''margin'' (gridCode g)"
proof -
  have ci: "\<not> adjacent CHR ''c'' CHR ''i'' (gridCode g)"
    using assms by (rule gridCode_plain) simp_all
  have "adjacent CHR ''c'' CHR ''i'' ''spacing''" by simp
  then show "\<not> sublist ''spacing'' (gridCode g)" using ci by (rule not_sublistI)
  have ff: "\<not> adjacent CHR ''O'' CHR ''f'' (gridCode g)"
    using assms by (rule gridCode_plain) simp_all
  have "adjacent CHR ''O'' CHR ''f'' ''originOffset''" by simp
  then show "\<not> sublist ''originOffset'' (gridCode g)" using ff by (rule not_sublistI)
  have rg: "\<not> adjacent CHR ''r'' CHR ''g'' (gridCode g)"
    using assms by (rule gridCode_plain) simp_all
  have "adjacent CHR ''r'' CHR ''g'' ''margin''" by simp
  then show "\<not> sublist ''margin'' (gridCode g)" using rg by (rule not_sublistI)
qed

text \<open>
  Claim C8. In grid mode the generated text is the preamble, the grid section and the
  animations. When \<open>originOffset.x\<close>, \<open>originOffset.y\<close>, \<open>margin.x\<close> and \<open>margin.y\<close> are all
  zero, the grid section ends after the grid descriptor and contains none of the
  words \<open>spacing\<close>, \<open>originOffset\<close> and \<open>margin\<close>. When one of them is not zero, the grid
  descriptor is followed by the spacing block, which holds both sub-objects with the
  four configured values.
\<close>

theorem generateCode_spacing_block:
  assumes "image_el s \<noteq> None" and "appFrames s \<noteq> []" and "parseMode s = Some Grid"
  shows "generateCode s =
           codePreamble (imagePath s) @ gridCode (gridConfig s)
           @ animationsCode (animationGroupName s) (animations s) \<and>
     (if vx (originOffset (gridConfig s)) = 0 \<and> vy (originOffset (gridConfig s)) = 0 \<and>
         vx (margin (gridConfig s)) = 0 \<and> vy (margin (gridConfig s)) = 0
      then
        gridCode (gridConfig s) =
          ''// Create spritesheet using grid-based parsing\<newline>''
          @ ''const spriteSheet = SpriteSheet.fromImageSource({\<newline>''
          @ ''  image: imageSource,\<newline>''
          @ ''  grid: {\<newline>''
          @ ''    rows: '' @ showInt (rows (gridConfig s)) @ '',\<newline>''
          @ ''    columns: '' @ showInt (columns (gridConfig s)) @ '',\<newline>''
          @ ''    spriteWidth: '' @ showInt (spriteWidth (gridConfig s)) @ '',\<newline>''
          @ ''    spriteHeight: '' @ showInt (spriteHeight (gridConfig s)) @ ''\<newline>''
          @ ''  }''
          @ ''\<newline>});\<newline>\<newline>'' \<and>
        \<not> sublist ''spacing'' (gridCode (gridConfig s)) \<and>
        \<not> sublist ''originOffset'' (gridCode (gridConfig s)) \<and>
        \<not> sublist ''margin'' (gridCode (gridConfig s))
      else
        gridCode (gridConfig s) =
          ''// Create spritesheet using grid-based parsing\<newline>''
          @ ''const spriteSheet = SpriteSheet.fromImageSource({\<newline>''
          @ ''  image: imageSource,\<newline>''
          @ ''  grid: {\<newline>''
          @ ''    rows: '' @ showInt (rows (gridConfig s)) @ '',\<newline>''
          @ ''    columns: '' @ showInt (columns (gridConfig s)) @ '',\<newline>''
          @ ''    spriteWidth: '' @ showInt (spriteWidth (gridConfig s)) @ '',\<newline>''
          @ ''    spriteHeight: '' @ showInt (spriteHeight (gridConfig s)) @ ''\<newline>''
          @ ''  }''
          @ '',\<newline>  spacing: {\<newline>''
          @ ''    originOffset: { x: '' @ showInt (vx (originOffset (gridConfig s)))
          @ '', y: '' @ showInt (vy (originOffset (gridConfig s))) @ '' },\<newline>''
          @ ''    margin: { x: '' @ showInt (vx (margin (gridConfig s)))
          @ '', y: '' @ showInt (vy (margin (gridConfig s))) @ '' }\<newline>''
          @ ''  }''
          @ ''\<newline>});\<newline>\<newline>'')"
proof (intro conjI)
  show "generateCode s =
           codePreamble (imagePath s) @ gridCode (gridConfig s)
           @ animationsCode (animationGroupName s) (animations s)"
    using assms by (auto simp: generateCode_def)
next
  let ?g = "gridConfig s"
  show "if vx (originOffset ?g) = 0 \<and> vy (originOffset ?g) = 0 \<and>
         vx (margin ?g) = 0 \<and> vy (margin ?g) = 0
      then
        gridCode ?g =
          ''// Create spritesheet using grid-based parsing\<newline>''
          @ ''const spriteSheet = SpriteSheet.fromImageSource({\<newline>''
          @ ''  image: imageSource,\<newline>''
          @ ''  grid: {\<newline>''
          @ ''    rows: '' @ showInt (rows ?g) @ '',\<newline>''
          @ ''    columns: '' @ showInt (columns ?g) @ '',\<newline>''
          @ ''    spriteWidth: '' @ showInt (spriteWidth ?g) @ '',\<newline>''
          @ ''    spriteHeight: '' @ showInt (spriteHeight ?g) @ ''\<newline>''
          @ ''  }''
          @ ''\<newline>});\<newline>\<newline>'' \<and>
        \<not> sublist ''spacing'' (gridCode ?g) \<and>
        \<not> sublist ''originOffset'' (gridCode ?g) \<and>
        \<not> sublist ''margin'' (gridCode ?g)
      else
        gridCode ?g =
          ''// Create spritesheet using grid-based parsing\<newline>''
          @ ''const spriteSheet = SpriteSheet.fromImageSource({\<newline>''
          @ ''  image: imageSource,\<newline>''
          @ ''  grid: {\<newline>''
          @ ''    rows: '' @ showInt (rows ?g) @ '',\<newline>''
          @ ''    columns: '' @ showInt (columns ?g) @ '',\<newline>''
          @ ''    spriteWidth: '' @ showInt (spriteWidth ?g) @ '',\<newline>''
          @ ''    spriteHeight: '' @ showInt (spriteHeight ?g) @ ''\<newline>''
          @ ''  }''
          @ '',\<newline>  spacing: {\<newline>''
          @ ''    originOffset: { x: '' @ showInt (vx (originOffset ?g))
          @ '', y: '' @ showInt (vy (originOffset ?g)) @ '' },\<newline>''
          @ ''    margin: { x: '' @ showInt (vx (margin ?g))
          @ '', y: '' @ showInt (vy (margin ?g)) @ '' }\<newline>''
          @ ''  }''
          @ ''\<newline>});\<newline>\<newline>''"
  proof (cases "hasSpacing ?g")
    case True
    then have "\<not> (vx (originOffset ?g) = 0 \<and> vy (originOffset ?g) = 0 \<and>
         vx (margin ?g) = 0 \<and> vy (margin ?g) = 0)"
      by (simp add: hasSpacing_def)
    moreover have "gridCode ?g =
          ''// Create spritesheet using grid-based parsing\<newline>''
          @ ''const spriteSheet = SpriteSheet.fromImageSource({\<newline>''
          @ ''  image: imageSource,\<newline>''
          @ ''  grid: {\<newline>''
          @ ''    rows: '' @ showInt (rows ?g) @ '',\<newline>''
          @ ''    columns: '' @ showInt (columns ?g) @ '',\<newline>''
          @ ''    spriteWidth: '' @ showInt (spriteWidth ?g) @ '',\<newline>''
          @ ''    spriteHeight: '' @ showInt (spriteHeight ?g) @ ''\<newline>''
          @ ''  }''
          @ '',\<newline>  spacing: {\<newline>''
          @ ''    originOffset: { x: '' @ showInt (vx (originOffset ?g))
          @ '', y: '' @ showInt (vy (originOffset ?g)) @ '' },\<newline>''
          @ ''    margin: { x: '' @ showInt (vx (margin ?g))
          @ '', y: '' @ showInt (vy (margin ?g)) @ '' }\<newline>''
          @ ''  }''
          @ ''\<newline>});\<newline>\<newline>''"
      using True by (simp add: gridCode_def Let_def)
    ultimately show ?thesis by (simp only: if_False)
  next
    case False
    then have z: "vx (originOffset ?g) = 0 \<and> vy (originOffset ?g) = 0 \<and>
         vx (margin ?g) = 0 \<and> vy (margin ?g) = 0"
      by (simp add: hasSpacing_def)
    have "gridCode ?g =
          ''// Create spritesheet using grid-based parsing\<newline>''
          @ ''const spriteSheet = SpriteSheet.fromImageSource({\<newline>''
          @ ''  image: imageSource,\<newline>''
          @ ''  grid: {\<newline>''
          @ ''    rows: '' @ showInt (rows ?g) @ '',\<newline>''
          @ ''    columns: '' @ showInt (columns ?g) @ '',\<newline>''
          @ ''    spriteWidth: '' @ showInt (spriteWidth ?g) @ '',\<newline>''
          @ ''    spriteHeight: '' @ showInt (spriteHeight ?g) @ ''\<newline>''
          @ ''  }''
          @ ''\<newline>});\<newline>\<newline>''"
      using False by (simp add: gridCode_def Let_def)
    then show ?thesis
      using gridCode_unspaced[OF False] z by (simp only: if_True simp_thms)
  qed
qed

lemma showInt_small: "showInt 0 = ''0''" "showInt 2 = ''2''" "showInt 3 = ''3''" "showInt 4 = ''4''"
  "showInt 16 = ''16''" "showInt 90 = ''90''" "showInt 150 = ''150''"
  by (simp_all add: showInt_def showNat.simps digit_def)

lemma exportApp_fields:
  "image_el exportApp \<noteq> None" "parseMode exportApp = Some Grid"
  "imagePath exportApp = ''sheet.png''" "animationGroupName exportApp = ''PlayerAnimations''"
  "gridConfig exportApp = \<lparr> spriteWidth = 16, spriteHeight = 16, rows = 2, columns = 3,
       originOffset = \<lparr> vx = 2, vy = 0 \<rparr>, margin = \<lparr> vx = 0, vy = 0 \<rparr> \<rparr>"
  "animations exportApp = [\<lparr> name = ''Walk'',
        frames = [\<lparr> frameIndex = 0, duration = 150 \<rparr>, \<lparr> frameIndex = 4, duration = 90 \<rparr>],
        loopStrategy = PingPong \<rparr>]"
  by (simp_all add: exportApp_def gridApp_def loadedApp_def initialApp_def parseGridFrames_def)

lemma exportApp_frames: "appFrames exportApp \<noteq> []"
proof -
  have "appFrames exportApp = appFrames (parseGridFrames gridApp)"
    by (simp add: exportApp_def)
  moreover have "image_el gridApp \<noteq> None" "0 < rows (gridConfig gridApp)" "0 < columns (gridConfig gridApp)"
    by (simp_all add: gridApp_def loadedApp_def initialApp_def)
  ultimately show ?thesis using parseGridFrames_nonempty[of gridApp] by simp
qed

theorem generateCode_spacing_block_example:
  "image_el exportApp \<noteq> None \<and> appFrames exportApp \<noteq> [] \<and> parseMode exportApp = Some Grid \<and>
   generateCode exportApp =
     ''import { ImageSource, SpriteSheet, Animation, AnimationStrategy } from 'excalibur';\<newline>\<newline>''
     @ ''// Load the spritesheet image\<newline>''
     @ ''// !!!! THIS IS /public FOLDER IF USING VITE !!!!\<newline>''
     @ ''const imageSource = new ImageSource('sheet.png');\<newline>\<newline>''
     @ ''// Wait for the image to load\<newline>''
     @ ''await imageSource.load();\<newline>\<newline>''
     @ ''// Create spritesheet using grid-based parsing\<newline>''
     @ ''const spriteSheet = SpriteSheet.fromImageSource({\<newline>''
     @ ''  image: imageSource,\<newline>''
     @ ''  grid: {\<newline>''
     @ ''    rows: 2,\<newline>''
     @ ''    columns: 3,\<newline>''
     @ ''    spriteWidth: 16,\<newline>''
     @ ''    spriteHeight: 16\<newline>''
     @ ''  },\<newline>''
     @ ''  spacing: {\<newline>''
     @ ''    originOffset: { x: 2, y: 0 },\<newline>''
     @ ''    margin: { x: 0, y: 0 }\<newline>''
     @ ''  }\<newline>''
     @ ''});\<newline>\<newline>''
     @ ''// Animation definitions\<newline>''
     @ ''export const PlayerAnimations = {\<newline>''
     @ ''  Walk: new Animation({\<newline>''
     @ ''    frames: [\<newline>''
     @ ''      { graphic: spriteSheet.sprites[0], duration: 150 },\<newline>''
     @ ''      { graphic: spriteSheet.sprites[4], duration: 90 }\<newline>''
     @ ''    ],\<newline>''
     @ ''    strategy: AnimationStrategy.PingPong\<newline>''
     @ ''  })\<newline>''
     @ ''};\<newline>'' \<and>
   \<not> sublist ''spacing'' (gridCode (gridConfig gridApp)) \<and>
   \<not> sublist ''originOffset'' (gridCode (gridConfig gridApp)) \<and>
   \<not> sublist ''margin'' (gridCode (gridConfig gridApp))"
proof -
  let ?plain = "exportApp\<lparr>gridConfig := gridConfig gridApp\<rparr>"
  have p: "image_el ?plain \<noteq> None" "appFrames ?plain \<noteq> []" "parseMode ?plain = Some Grid"
    using exportApp_fields(1,2) exportApp_frames by simp_all
  have z: "vx (originOffset (gridConfig gridApp)) = 0 \<and> vy (originOffset (gridConfig gridApp)) = 0 \<and>
           vx (margin (gridConfig gridApp)) = 0 \<and> vy (margin (gridConfig gridApp)) = 0"
    by (simp add: gridApp_def)
  have "\<not> sublist ''spacing'' (gridCode (gridConfig gridApp)) \<and>
        \<not> sublist ''originOffset'' (gridCode (gridConfig gridApp)) \<and>
        \<not> sublist ''margin'' (gridCode (gridConfig gridApp))"
  proof -
    have g: "gridConfig ?plain = gridConfig gridApp" by simp
    from generateCode_spacing_block[OF p] z show ?thesis
      unfolding g by (auto split: if_splits)
  qed
  then show ?thesis
    using generateCode_spacing_block[OF exportApp_fields(1) exportApp_frames exportApp_fields(2)]
      exportApp_frames
    by (simp add: exportApp_fields showInt_small codePreamble_def animationsCode_def)
qed

text \<open>
  Claim C10 fails as stated: the text also depends on the state cell \<open>frames\<close>, which
  is not among the seven cells the claim lists. Two states that agree on the image,
  the parse mode, the grid configuration, the source views, the animations, the
  group name and the image path yield the empty string and the full text, when one
  has no frames stored and the other has.
\<close>

theorem generateCode_depends_on_frames:
  "image_el (exportApp\<lparr>appFrames := []\<rparr>) = image_el exportApp \<and>
   parseMode (exportApp\<lparr>appFrames := []\<rparr>) = parseMode exportApp \<and>
   gridConfig (exportApp\<lparr>appFrames := []\<rparr>) = gridConfig exportApp \<and>
   sourceViews (exportApp\<lparr>appFrames := []\<rparr>) = sourceViews exportApp \<and>
   animations (exportApp\<lparr>appFrames := []\<rparr>) = animations exportApp \<and>
   animationGroupName (exportApp\<lparr>appFrames := []\<rparr>) = animationGroupName exportApp \<and>
   imagePath (exportApp\<lparr>appFrames := []\<rparr>) = imagePath exportApp \<and>
   generateCode (exportApp\<lparr>appFrames := []\<rparr>) = [] \<and>
   generateCode exportApp \<noteq> []"
proof -
  have "generateCode (exportApp\<lparr>appFrames := []\<rparr>) = []"
    by (simp add: generateCode_def)
  moreover have "generateCode exportApp \<noteq> []"
    using exportApp_fields(1) exportApp_frames by (auto simp: generateCode_def codePreamble_def)
  ultimately show ?thesis by simp
qed

text \<open>
  Claim C10, as the code has it. \<open>generateCode\<close> returns the empty string when no image
  is loaded or no frames are stored, and its result depends only on the presence of
  the image, the presence of frames, the parse mode, the grid configuration, the
  source views, the animations, the group name and the image path: two states that
  agree on these yield the same text, whatever the rest of the state is.
\<close>

theorem generateCode_empty_and_determined:
  "(image_el s = None \<or> appFrames s = [] \<longrightarrow> generateCode s = []) \<and>
   ((image_el s = None \<longleftrightarrow> image_el s' = None) \<and> (appFrames s = [] \<longleftrightarrow> appFrames s' = []) \<and>
    parseMode s = parseMode s' \<and> gridConfig s = gridConfig s' \<and>
    sourceViews s = sourceViews s' \<and> animations s = animations s' \<and>
    animationGroupName s = animationGroupName s' \<and> imagePath s = imagePath s'
    \<longrightarrow> generateCode s = generateCode s')"
proof (intro conjI impI)
  assume "image_el s = None \<or> appFrames s = []"
  then show "generateCode s = []" by (auto simp: generateCode_def)
next
  assume a: "(image_el s = None \<longleftrightarrow> image_el s' = None) \<and> (appFrames s = [] \<longleftrightarrow> appFrames s' = []) \<and>
    parseMode s = parseMode s' \<and> gridConfig s = gridConfig s' \<and>
    sourceViews s = sourceViews s' \<and> animations s = animations s' \<and>
    animationGroupName s = animationGroupName s' \<and> imagePath s = imagePath s'"
  then have "(image_el s = None \<or> appFrames s = []) = (image_el s' = None \<or> appFrames s' = [])"
    by blast
  then show "generateCode s = generateCode s'"
    unfolding generateCode_def using a by presburger
qed

theorem generateCode_empty_and_determined_example:
  "generateCode initialApp = [] \<and>
   generateCode (exportApp\<lparr>isPlaying := True, currentFrameIdx := 1, defaultDuration := 40\<rparr>) =
     generateCode exportApp"
  using generateCode_empty_and_determined[of initialApp initialApp]
    generateCode_empty_and_determined
      [of "exportApp\<lparr>isPlaying := True, currentFrameIdx := 1, defaultDuration := 40\<rparr>" exportApp]
  by (simp add: initialApp_def)

end
